theory Spec2Isabelle
  imports Main
begin

section \<open>JavaScript values and string operations used by the adapters\<close>

text \<open>
  Strings are \<open>string\<close> (ASCII code units). The numeric arguments of the tools
  (\<open>limit\<close>, \<open>offset\<close>, \<open>read_range\<close>, page cursors) are JavaScript numbers;
  they are modelled as \<open>int\<close>, which covers the integral values in the safe range.
\<close>

definition dquote :: string where
  "dquote = [CHR 0x22]"

definition newline :: char where
  "newline = CHR 0x0A"

definition backslash :: char where
  "backslash = CHR 0x5C"

text \<open>\<open>String(n)\<close> for an integral number: decimal digits, a leading minus sign.\<close>

fun showNat :: "nat \<Rightarrow> string" where
  "showNat n = (if n < 10 then [''0123456789'' ! n]
                else showNat (n div 10) @ [''0123456789'' ! (n mod 10)])"

declare showNat.simps [simp del]

definition showInt :: "int \<Rightarrow> string" where
  "showInt i = (if i < 0 then CHR ''-'' # showNat (nat (- i)) else showNat (nat i))"

text \<open>
  The remainder operator \<open>a % b\<close>: the result has the sign of the dividend, and
  \<open>a % 0\<close> is \<open>NaN\<close> (here \<open>None\<close>), which is different from every number.
\<close>

definition jsRemainder :: "int \<Rightarrow> int \<Rightarrow> int option" where
  "jsRemainder a b = (if b = 0 then None else Some (sgn a * (\<bar>a\<bar> mod \<bar>b\<bar>)))"

text \<open>\<open>String.prototype.toLowerCase\<close> on ASCII letters.\<close>

definition lowerChar :: "char \<Rightarrow> char" where
  "lowerChar c = (if 65 \<le> (of_char c :: nat) \<and> (of_char c :: nat) \<le> 90
                  then char_of ((of_char c :: nat) + 32) else c)"

definition toLowerCase :: "string \<Rightarrow> string" where
  "toLowerCase s = map lowerChar s"

text \<open>\<open>s.startsWith(t)\<close> and \<open>s.includes(t)\<close>.\<close>

fun startsWith :: "string \<Rightarrow> string \<Rightarrow> bool" where
  "startsWith s [] = True"
| "startsWith [] (c # cs) = False"
| "startsWith (x # xs) (c # cs) = (x = c \<and> startsWith xs cs)"

fun includesStr :: "string \<Rightarrow> string \<Rightarrow> bool" where
  "includesStr [] t = (t = [])"
| "includesStr (x # xs) t = (startsWith (x # xs) t \<or> includesStr xs t)"

text \<open>\<open>Array.prototype.join(sep)\<close> on an array of strings.\<close>

fun joinWith :: "string \<Rightarrow> string list \<Rightarrow> string" where
  "joinWith sep [] = []"
| "joinWith sep [x] = x"
| "joinWith sep (x # y # ys) = x @ sep @ joinWith sep (y # ys)"

text \<open>
  \<open>Array.prototype.slice(start, end)\<close> and \<open>slice(start)\<close>: a negative index counts
  from the end of the array, and both indices are clamped to the array.
\<close>

definition sliceIndex :: "nat \<Rightarrow> int \<Rightarrow> nat" where
  "sliceIndex len i = (if i < 0 then nat (max (int len + i) 0) else min (nat i) len)"

definition jsSlice :: "'a list \<Rightarrow> int \<Rightarrow> int \<Rightarrow> 'a list" where
  "jsSlice xs from until =
     (let k = sliceIndex (length xs) from;
          final = sliceIndex (length xs) until
      in take (final - k) (drop k xs))"

definition jsSliceFrom :: "'a list \<Rightarrow> int \<Rightarrow> 'a list" where
  "jsSliceFrom xs from = drop (sliceIndex (length xs) from) xs"

text \<open>\<open>content.split('\n')\<close>: never empty; the empty string gives one empty line.\<close>

fun splitLines :: "string \<Rightarrow> string list" where
  "splitLines [] = [[]]"
| "splitLines (c # cs) =
     (if c = newline then [] # splitLines cs
      else (case splitLines cs of
              [] \<Rightarrow> [[c]]
            | l # ls \<Rightarrow> (c # l) # ls))"

section \<open>The shared invocation protocol\<close>

text \<open>
  A tool run emits \<open>{status: 'in-progress', progress}\<close>, \<open>{status: 'done', result}\<close>
  or \<open>{status: 'error', error: {message}}\<close>. An invocation is modelled by the list of
  the events it passes to \<open>observer.next\<close>, in order.
\<close>

datatype ('p, 'r) ToolRun = InProgress 'p | Done 'r | Error string

text \<open>
  The response of \<open>fetchFromBitbucketAPI\<close>. The collaborators (the configuration service
  and the fetch function) are parameters of every tool: a promise that rejects is
  \<open>Inl message\<close>, one that resolves is \<open>Inr value\<close>.
\<close>

record 'd BitbucketAPIResponse =
  ok :: bool
  status :: int
  statusText :: string
  data :: "'d option"
  responseText :: "string option"

text \<open>What an invocation asked of its collaborators, in order.\<close>

datatype call = ConfigGetLatest | ApiFetch string

record ('p, 'r) run =
  events :: "('p, 'r) ToolRun list"
  calls :: "call list"

section \<open>Project Lister (\<open>list_projects\<close>)\<close>

record ListProjectsToolArgs =
  lp_pattern :: "string option"
  lp_limit :: "int option"
  lp_offset :: "int option"

record BitbucketProject =
  bp_key :: string
  bp_id :: int
  bp_name :: string
  bp_description :: "string option"
  bp_public :: bool
  bp_type :: string

record 'a BitbucketPaginatedResponse =
  pg_values :: "'a list"
  pg_size :: "int option"
  pg_isLastPage :: bool
  pg_start :: "int option"
  pg_limit :: "int option"
  pg_nextPageStart :: "int option"

record ProjectResult =
  pr_key :: string
  pr_name :: string
  pr_description :: "string option"
  pr_isPublic :: bool
  pr_type :: string

record ListProjectsResult =
  lr_projects :: "ProjectResult list"
  lr_totalCount :: int

text \<open>
  The regular expression engine is the runtime's: \<open>RegExp source flags\<close> is
  \<open>Inl message\<close> when the constructor throws a SyntaxError, and otherwise \<open>Inr test\<close>
  with \<open>test s\<close> the value of \<open>regex.test(s)\<close>.
\<close>

type_synonym RegExpEngine = "string \<Rightarrow> string \<Rightarrow> string + (string \<Rightarrow> bool)"

text \<open>The \<open>try { new RegExp(pattern, 'i') ... } catch { substring match }\<close> block.\<close>

definition regexProjectMatch :: "(string \<Rightarrow> bool) \<Rightarrow> BitbucketProject \<Rightarrow> bool" where
  "regexProjectMatch regex_test project =
     (regex_test (bp_name project) \<or> regex_test (bp_key project) \<or>
      (case bp_description project of
         None \<Rightarrow> False
       | Some d \<Rightarrow> d \<noteq> [] \<and> regex_test d))"

definition substringProjectMatch :: "string \<Rightarrow> BitbucketProject \<Rightarrow> bool" where
  "substringProjectMatch lowerPattern project =
     (includesStr (toLowerCase (bp_name project)) lowerPattern \<or>
      includesStr (toLowerCase (bp_key project)) lowerPattern \<or>
      (case bp_description project of
         None \<Rightarrow> False
       | Some d \<Rightarrow> d \<noteq> [] \<and> includesStr (toLowerCase d) lowerPattern))"

definition filterProjects ::
  "RegExpEngine \<Rightarrow> string option \<Rightarrow> BitbucketProject list \<Rightarrow> BitbucketProject list" where
  "filterProjects RegExp pattern projects =
     (case pattern of
        None \<Rightarrow> projects
      | Some pat \<Rightarrow>
          if pat = [] then projects
          else (case RegExp pat ''i'' of
                  Inr regex_test \<Rightarrow> filter (regexProjectMatch regex_test) projects
                | Inl _ \<Rightarrow> filter (substringProjectMatch (toLowerCase pat)) projects))"

definition toProjectResult :: "BitbucketProject \<Rightarrow> ProjectResult" where
  "toProjectResult project =
     \<lparr>pr_key = bp_key project,
      pr_name = bp_name project,
      pr_description = (case bp_description project of
                          None \<Rightarrow> None
                        | Some d \<Rightarrow> if d = [] then None else Some d),
      pr_isPublic = bp_public project,
      pr_type = bp_type project\<rparr>"

definition listProjectsOffsetMessage :: "int \<Rightarrow> int \<Rightarrow> string" where
  "listProjectsOffsetMessage offset limit =
     ''offset ('' @ showInt offset @ '') must be divisible by limit ('' @ showInt limit @
     '') for pagination. Try offset values like 0, '' @ showInt limit @ '', '' @
     showInt (limit * 2) @ '', etc.''"

definition listProjectsProgress :: "string option \<Rightarrow> string list" where
  "listProjectsProgress pattern =
     [''Fetching projects'' @
      (case pattern of
         None \<Rightarrow> []
       | Some pat \<Rightarrow> if pat = [] then [] else '' matching '' @ dquote @ pat @ dquote) @
      ''...'']"

definition listProjectsApiPath :: "int \<Rightarrow> int \<Rightarrow> string" where
  "listProjectsApiPath limit offset =
     ''rest/api/1.0/projects?limit='' @ showInt limit @ ''&start='' @ showInt offset"

definition listProjectsTotalCount :: "int option \<Rightarrow> ProjectResult list \<Rightarrow> int" where
  "listProjectsTotalCount reported results =
     (case reported of
        None \<Rightarrow> int (length results)
      | Some n \<Rightarrow> if n = 0 then int (length results) else n)"

definition bitbucketListProjectsTool ::
  "(string + 'cfg) \<Rightarrow>
   (string \<Rightarrow> 'cfg \<Rightarrow> string + BitbucketProject BitbucketPaginatedResponse BitbucketAPIResponse) \<Rightarrow>
   RegExpEngine \<Rightarrow> ListProjectsToolArgs \<Rightarrow> (string list, ListProjectsResult) run" where
  "bitbucketListProjectsTool getLatest fetchFromBitbucketAPI RegExp args =
     (let pattern = lp_pattern args;
          limit = (case lp_limit args of None \<Rightarrow> 30 | Some l \<Rightarrow> l);
          offset = (case lp_offset args of None \<Rightarrow> 0 | Some off \<Rightarrow> off)
      in
      if jsRemainder offset limit \<noteq> Some 0 then
        \<lparr>events = [Error (listProjectsOffsetMessage offset limit)], calls = []\<rparr>
      else
        (case getLatest of
           Inl e \<Rightarrow>
             \<lparr>events = [Error (''Error fetching projects: '' @ e)],
              calls = [ConfigGetLatest]\<rparr>
         | Inr config \<Rightarrow>
             (let apiPath = listProjectsApiPath limit offset;
                  progress = InProgress (listProjectsProgress pattern);
                  made = [ConfigGetLatest, ApiFetch apiPath]
              in
              case fetchFromBitbucketAPI apiPath config of
                Inl e \<Rightarrow>
                  \<lparr>events = [progress, Error (''Error fetching projects: '' @ e)],
                   calls = made\<rparr>
              | Inr response \<Rightarrow>
                  (let failed =
                         \<lparr>events = [progress,
                            Error (''Failed to fetch projects: '' @ showInt (status response) @
                                   '' '' @ (if statusText response = [] then ''Unknown error''
                                            else statusText response))],
                          calls = made\<rparr>
                   in
                   if \<not> ok response then failed
                   else (case data response of
                           None \<Rightarrow> failed
                         | Some d \<Rightarrow>
                             (let projects = filterProjects RegExp pattern (pg_values d);
                                  results = map toProjectResult projects
                              in
                              \<lparr>events = [progress,
                                 Done \<lparr>lr_projects = results,
                                       lr_totalCount = listProjectsTotalCount (pg_size d) results\<rparr>],
                               calls = made\<rparr>))))))"

subsection \<open>An example server\<close>

text \<open>An example server: every fetch returns one page with one project and the given
  \<open>size\<close> field.\<close>

definition exampleProject :: BitbucketProject where
  "exampleProject =
     \<lparr>bp_key = ''P1'', bp_id = 1, bp_name = ''Platform'', bp_description = None,
      bp_public = False, bp_type = ''NORMAL''\<rparr>"

definition examplePage :: "int option \<Rightarrow> BitbucketProject BitbucketPaginatedResponse" where
  "examplePage reported =
     \<lparr>pg_values = [exampleProject], pg_size = reported, pg_isLastPage = True,
      pg_start = Some 0, pg_limit = Some 30, pg_nextPageStart = None\<rparr>"

definition exampleFetch ::
  "int option \<Rightarrow> string \<Rightarrow> unit \<Rightarrow>
   string + BitbucketProject BitbucketPaginatedResponse BitbucketAPIResponse" where
  "exampleFetch reported path config =
     Inr \<lparr>ok = True, status = 200, statusText = ''OK'', data = Some (examplePage reported),
          responseText = None\<rparr>"

section \<open>Repository Searcher (\<open>search_repositories\<close>)\<close>

record SearchRepositoriesToolArgs =
  sr_query :: string
  sr_limit :: "int option"

text \<open>
  One category of a search response (\<open>repositories\<close> or \<open>code\<close>). The repository
  objects are passed through unchanged, so the model is polymorphic in them.
\<close>

record 'a SearchCategory =
  sc_category :: string
  sc_count :: int
  sc_nextStart :: int
  sc_start :: int
  sc_values :: "'a list"
  sc_isLastPage :: bool

record 'r SearchRepositoriesResponse =
  srr_repositories :: "'r SearchCategory option"

record 'r SearchRepositoriesResult =
  srs_repositories :: "'r list"
  srs_totalCount :: int

text \<open>The body of the \<open>POST\<close> request to the search endpoint.\<close>

record SearchRequestBody =
  rb_query :: string
  rb_entities :: "string list"
  rb_primary :: int

definition searchEndpoint :: string where
  "searchEndpoint = ''rest/search/latest/search?avatarSize=64''"

text \<open>The text after the status line of a failed search: \<open>response.text.substring(0, 100)\<close>.\<close>

definition failedSuffix :: "string option \<Rightarrow> string" where
  "failedSuffix body =
     (case body of
        None \<Rightarrow> []
      | Some t \<Rightarrow> if t = [] then [] else '' - '' @ take 100 t)"

definition bitbucketSearchRepositoriesTool ::
  "(string + 'cfg) \<Rightarrow>
   (string \<Rightarrow> SearchRequestBody \<Rightarrow> 'cfg \<Rightarrow>
      string + 'r SearchRepositoriesResponse BitbucketAPIResponse) \<Rightarrow>
   SearchRepositoriesToolArgs \<Rightarrow> (string list, 'r SearchRepositoriesResult) ToolRun list" where
  "bitbucketSearchRepositoriesTool getLatest fetchFromBitbucketAPI args =
     (let query = sr_query args;
          limit = (case sr_limit args of None \<Rightarrow> 30 | Some l \<Rightarrow> l);
          progress = InProgress [''Searching for repositories matching '' @ dquote @ query @
                                 dquote @ ''...''];
          caught = (\<lambda>message.
            [progress, Error (''Error searching Bitbucket repositories: '' @ message)]);
          requestBody = \<lparr>rb_query = query, rb_entities = [''repositories''], rb_primary = limit\<rparr>
      in
      case getLatest of
        Inl e \<Rightarrow> caught e
      | Inr config \<Rightarrow>
          (case fetchFromBitbucketAPI searchEndpoint requestBody config of
             Inl e \<Rightarrow> caught e
           | Inr response \<Rightarrow>
               if \<not> ok response then
                 caught (''Bitbucket repository search failed: '' @ showInt (status response) @
                         '' '' @ statusText response @ failedSuffix (responseText response))
               else
                 (case data response of
                    None \<Rightarrow> caught ''No data returned from Bitbucket repository search''
                  | Some d \<Rightarrow>
                      (case srr_repositories d of
                         None \<Rightarrow>
                           [progress, Done \<lparr>srs_repositories = [], srs_totalCount = 0\<rparr>]
                       | Some found \<Rightarrow>
                           [progress,
                            Done \<lparr>srs_repositories = sc_values found,
                                  srs_totalCount = sc_count found\<rparr>]))))"

subsection \<open>An example search server\<close>

definition exampleSearchFetch ::
  "'d BitbucketAPIResponse \<Rightarrow> string \<Rightarrow> SearchRequestBody \<Rightarrow> unit \<Rightarrow> string + 'd BitbucketAPIResponse" where
  "exampleSearchFetch response path body config = Inr response"

definition exampleRepositories :: "string SearchCategory" where
  "exampleRepositories =
     \<lparr>sc_category = ''primary'', sc_count = 7, sc_nextStart = 2, sc_start = 0,
      sc_values = [''auth-service'', ''auth-lib''], sc_isLastPage = False\<rparr>"

definition exampleSearchArgs :: SearchRepositoriesToolArgs where
  "exampleSearchArgs = \<lparr>sr_query = ''auth'', sr_limit = None\<rparr>"

definition exampleSearchResponse ::
  "bool \<Rightarrow> string SearchRepositoriesResponse option \<Rightarrow>
   string SearchRepositoriesResponse BitbucketAPIResponse" where
  "exampleSearchResponse success payload =
     \<lparr>ok = success, status = (if success then 200 else 503),
      statusText = (if success then ''OK'' else ''Service Unavailable''),
      data = payload, responseText = (if success then None else Some ''index offline'')\<rparr>"

section \<open>A fragment of the runtime's regular expressions\<close>

text \<open>
  The tools hand pattern sources to \<open>new RegExp\<close>. To run them on concrete inputs, the
  fragment of the pattern language that the glob translation emits is modelled here:
  literal characters, \<open>.\<close>, identity escapes of syntax characters, character classes
  of plain characters (possibly negated), the greedy \<open>*\<close> quantifier on an atom, and
  the assertions \<open>^\<close> and \<open>$\<close>. A source is parsed to \<open>Parsed\<close> only if every
  construct in it belongs to the fragment, and to \<open>SyntaxError\<close> only where the
  constructor throws; everything else is \<open>Unsupported\<close>.
\<close>

datatype atom = AnyChar | Lit char | CharClass bool "char list"

datatype regexTerm = Bol | Eol | One atom | Star atom

datatype 'a parsed = SyntaxError string | Unsupported | Parsed 'a

definition syntaxChars :: "char list" where
  "syntaxChars = ''^$.*+?()[]{}|/'' @ [backslash]"

fun parseClass :: "string \<Rightarrow> char list \<Rightarrow> (char list \<times> string) parsed" where
  "parseClass [] members = SyntaxError ''Unterminated character class''"
| "parseClass (c # cs) members =
     (if c = CHR '']'' then Parsed (rev members, cs)
      else if c = backslash \<or> c = CHR ''-'' then Unsupported
      else parseClass cs (c # members))"

definition parseBracket :: "string \<Rightarrow> (atom \<times> string) parsed" where
  "parseBracket cs =
     (case cs of
        [] \<Rightarrow> SyntaxError ''Unterminated character class''
      | e # rest \<Rightarrow>
          if e = CHR ''^'' then
            (case parseClass rest [] of
               Parsed (members, after) \<Rightarrow> Parsed (CharClass True members, after)
             | SyntaxError m \<Rightarrow> SyntaxError m
             | Unsupported \<Rightarrow> Unsupported)
          else
            (case parseClass cs [] of
               Parsed (members, after) \<Rightarrow> Parsed (CharClass False members, after)
             | SyntaxError m \<Rightarrow> SyntaxError m
             | Unsupported \<Rightarrow> Unsupported))"

definition parseAtom :: "char \<Rightarrow> string \<Rightarrow> (atom \<times> string) parsed" where
  "parseAtom c cs =
     (if c = CHR ''.'' then Parsed (AnyChar, cs)
      else if c = backslash then
        (case cs of
           [] \<Rightarrow> SyntaxError (backslash # '' at end of pattern'')
         | e # rest \<Rightarrow> if e \<in> set syntaxChars then Parsed (Lit e, rest) else Unsupported)
      else if c = CHR ''['' then parseBracket cs
      else if c = CHR ''*'' then SyntaxError ''Nothing to repeat''
      else if c = CHR ''('' then
        (if CHR '')'' \<in> set cs then Unsupported else SyntaxError ''Unterminated group'')
      else if c \<in> set ''+?){}|]'' then Unsupported
      else Parsed (Lit c, cs))"

lemma parseClass_shorter:
  "parseClass cs members = Parsed (found, rest) \<Longrightarrow> length rest < length cs"
proof (induction cs arbitrary: members)
  case Nil
  then show ?case by simp
next
  case (Cons c cs)
  show ?case
  proof (cases "c = CHR '']''")
    case True
    with Cons.prems show ?thesis by simp
  next
    case False
    with Cons.prems have "parseClass cs (c # members) = Parsed (found, rest)"
      by (simp split: if_splits)
    from Cons.IH [OF this] show ?thesis by simp
  qed
qed

lemma parseAtom_shorter:
  "parseAtom c cs = Parsed (a, rest) \<Longrightarrow> length rest \<le> length cs"
  by (auto simp: parseAtom_def parseBracket_def split: if_splits list.splits parsed.splits
      dest!: parseClass_shorter)

function parseTerms :: "string \<Rightarrow> regexTerm list parsed" where
  "parseTerms [] = Parsed []"
| "parseTerms (c # cs) =
     (if c = CHR ''^'' \<or> c = CHR ''$'' then
        (case parseTerms cs of
           Parsed ts \<Rightarrow> Parsed ((if c = CHR ''^'' then Bol else Eol) # ts)
         | SyntaxError m \<Rightarrow> SyntaxError m
         | Unsupported \<Rightarrow> Unsupported)
      else
        (case parseAtom c cs of
           SyntaxError m \<Rightarrow> SyntaxError m
         | Unsupported \<Rightarrow> Unsupported
         | Parsed (a, rest) \<Rightarrow>
             (case rest of
                [] \<Rightarrow> Parsed [One a]
              | q # after \<Rightarrow>
                  if q = CHR ''*'' then
                    (case after of
                       [] \<Rightarrow> Parsed [Star a]
                     | l # _ \<Rightarrow>
                         if l = CHR ''?'' then Unsupported
                         else (case parseTerms after of
                                 Parsed ts \<Rightarrow> Parsed (Star a # ts)
                               | SyntaxError m \<Rightarrow> SyntaxError m
                               | Unsupported \<Rightarrow> Unsupported))
                  else
                    (case parseTerms rest of
                       Parsed ts \<Rightarrow> Parsed (One a # ts)
                     | SyntaxError m \<Rightarrow> SyntaxError m
                     | Unsupported \<Rightarrow> Unsupported))))"
  by pat_completeness auto
termination
  by (relation "measure length") (auto dest: parseAtom_shorter)

text \<open>
  Matching. With the \<open>i\<close> flag characters are compared after canonicalisation
  (upper-casing); \<open>.\<close> matches everything but a line terminator; without the \<open>m\<close>
  flag \<open>^\<close> holds only at the start of the input and \<open>$\<close> only at its end.
\<close>

definition upperChar :: "char \<Rightarrow> char" where
  "upperChar c = (if 97 \<le> (of_char c :: nat) \<and> (of_char c :: nat) \<le> 122
                  then char_of ((of_char c :: nat) - 32) else c)"

definition sameChar :: "bool \<Rightarrow> char \<Rightarrow> char \<Rightarrow> bool" where
  "sameChar ignoreCase a b = (if ignoreCase then upperChar a = upperChar b else a = b)"

fun matchAtom :: "bool \<Rightarrow> atom \<Rightarrow> char \<Rightarrow> bool" where
  "matchAtom ignoreCase AnyChar x = (x \<noteq> CHR 0x0A \<and> x \<noteq> CHR 0x0D)"
| "matchAtom ignoreCase (Lit c) x = sameChar ignoreCase c x"
| "matchAtom ignoreCase (CharClass negated members) x =
     (list_ex (\<lambda>m. sameChar ignoreCase m x) members \<noteq> negated)"

text \<open>\<open>matchTerms\<close>: some prefix of the input matches the terms, by backtracking.\<close>

fun matchTerms :: "bool \<Rightarrow> regexTerm list \<Rightarrow> bool \<Rightarrow> string \<Rightarrow> bool" where
  "matchTerms ignoreCase [] atStart s = True"
| "matchTerms ignoreCase (Bol # ts) atStart s = (atStart \<and> matchTerms ignoreCase ts atStart s)"
| "matchTerms ignoreCase (Eol # ts) atStart s = (s = [] \<and> matchTerms ignoreCase ts atStart s)"
| "matchTerms ignoreCase (One a # ts) atStart [] = False"
| "matchTerms ignoreCase (One a # ts) atStart (x # xs) =
     (matchAtom ignoreCase a x \<and> matchTerms ignoreCase ts False xs)"
| "matchTerms ignoreCase (Star a # ts) atStart [] = matchTerms ignoreCase ts atStart []"
| "matchTerms ignoreCase (Star a # ts) atStart (x # xs) =
     (matchTerms ignoreCase ts atStart (x # xs) \<or>
      (matchAtom ignoreCase a x \<and> matchTerms ignoreCase (Star a # ts) False xs))"

text \<open>\<open>regex.test(s)\<close>: a match may start at any index of the input.\<close>

fun testFrom :: "bool \<Rightarrow> regexTerm list \<Rightarrow> bool \<Rightarrow> string \<Rightarrow> bool" where
  "testFrom ignoreCase ts atStart [] = matchTerms ignoreCase ts atStart []"
| "testFrom ignoreCase ts atStart (x # xs) =
     (matchTerms ignoreCase ts atStart (x # xs) \<or> testFrom ignoreCase ts False xs)"

definition regexTest :: "bool \<Rightarrow> regexTerm list \<Rightarrow> string \<Rightarrow> bool" where
  "regexTest ignoreCase ts s = testFrom ignoreCase ts True s"

text \<open>
  \<open>jsRegExp source flags\<close> is what \<open>new RegExp(source, flags)\<close> does on the fragment,
  and \<open>None\<close> outside it. \<open>fragmentEngine\<close> is an engine that agrees with it on the
  fragment; it is only ever run on sources of the fragment.
\<close>

definition jsRegExp :: "string \<Rightarrow> string \<Rightarrow> (string + (string \<Rightarrow> bool)) option" where
  "jsRegExp source flags =
     (if flags \<noteq> [] \<and> flags \<noteq> ''i'' then None
      else (case parseTerms source of
              Unsupported \<Rightarrow> None
            | SyntaxError m \<Rightarrow> Some (Inl (''Invalid regular expression: '' @ m))
            | Parsed ts \<Rightarrow> Some (Inr (regexTest (flags = ''i'') ts))))"

definition fragmentEngine :: RegExpEngine where
  "fragmentEngine source flags =
     (case jsRegExp source flags of
        Some outcome \<Rightarrow> outcome
      | None \<Rightarrow> Inl ''outside the modelled fragment'')"

section \<open>Code Searcher (\<open>code_search\<close>)\<close>

record CodeSearchToolArgs =
  cs_query :: string
  cs_project :: "string option"
  cs_repository :: "string option"
  cs_fileGlob :: "string option"
  cs_limit :: "int option"

record HitProject =
  hp_key :: string
  hp_id :: int
  hp_name :: string

record HitRepository =
  hr_slug :: string
  hr_id :: int
  hr_name :: string
  hr_description :: "string option"
  hr_project :: HitProject

record HitLine =
  hl_line :: int
  hl_text :: string

record CodeHit =
  ch_repository :: HitRepository
  ch_file :: string
  ch_hitContexts :: "HitLine list list"
  ch_hitCount :: int

record CodeSearchResponse =
  csr_code :: "CodeHit SearchCategory option"

record CodeSearchResult =
  cr_files :: "CodeHit list"
  cr_totalCount :: int

text \<open>
  The three global replacements on the glob, in the order of the source:
  \<open>.replace(/\./g, '\\.')\<close>, \<open>.replace(/\*\*/g, '.*')\<close>, \<open>.replace(/\*/g, '[^/]*')\<close>.
  A global replacement scans from the left and replaces non-overlapping matches.
\<close>

fun replaceDots :: "string \<Rightarrow> string" where
  "replaceDots [] = []"
| "replaceDots (c # cs) =
     (if c = CHR ''.'' then backslash # CHR ''.'' # replaceDots cs else c # replaceDots cs)"

fun replaceDoubleStars :: "string \<Rightarrow> string" where
  "replaceDoubleStars [] = []"
| "replaceDoubleStars [c] = [c]"
| "replaceDoubleStars (c # d # cs) =
     (if c = CHR ''*'' \<and> d = CHR ''*'' then ''.*'' @ replaceDoubleStars cs
      else c # replaceDoubleStars (d # cs))"

fun replaceStars :: "string \<Rightarrow> string" where
  "replaceStars [] = []"
| "replaceStars (c # cs) =
     (if c = CHR ''*'' then ''[^/]*'' @ replaceStars cs else c # replaceStars cs)"

definition globRegexSource :: "string \<Rightarrow> string" where
  "globRegexSource fileGlob =
     ''^'' @ replaceStars (replaceDoubleStars (replaceDots fileGlob)) @ ''$''"

definition codeSearchProgress :: "string \<Rightarrow> (string list, CodeSearchResult) ToolRun" where
  "codeSearchProgress query = InProgress [''Searching for '' @ dquote @ query @ dquote @ '' in code...'']"

definition bitbucketCodeSearchTool ::
  "(string + 'cfg) \<Rightarrow>
   (string \<Rightarrow> SearchRequestBody \<Rightarrow> 'cfg \<Rightarrow> string + CodeSearchResponse BitbucketAPIResponse) \<Rightarrow>
   RegExpEngine \<Rightarrow> CodeSearchToolArgs \<Rightarrow> (string list, CodeSearchResult) ToolRun list" where
  "bitbucketCodeSearchTool getLatest fetchFromBitbucketAPI RegExp args =
     (let query = cs_query args;
          limit = (case cs_limit args of None \<Rightarrow> 25 | Some l \<Rightarrow> l);
          progress = codeSearchProgress query;
          caught = (\<lambda>message. [progress, Error (''Error searching Bitbucket code: '' @ message)]);
          requestBody = \<lparr>rb_query = query, rb_entities = [''code''], rb_primary = limit\<rparr>
      in
      case getLatest of
        Inl e \<Rightarrow> caught e
      | Inr config \<Rightarrow>
          (case fetchFromBitbucketAPI searchEndpoint requestBody config of
             Inl e \<Rightarrow> caught e
           | Inr response \<Rightarrow>
               if \<not> ok response then
                 caught (''Bitbucket code search failed: '' @ showInt (status response) @
                         '' '' @ statusText response @ failedSuffix (responseText response))
               else
                 (case data response of
                    None \<Rightarrow> caught ''No data returned from Bitbucket code search''
                  | Some d \<Rightarrow>
                      (case csr_code d of
                         None \<Rightarrow> [progress, Done \<lparr>cr_files = [], cr_totalCount = 0\<rparr>]
                       | Some found \<Rightarrow>
                           (let files = sc_values found;
                                byProject =
                                  (case cs_project args of
                                     None \<Rightarrow> files
                                   | Some project \<Rightarrow>
                                       if project = [] then files
                                       else filter (\<lambda>file. hp_key (hr_project (ch_repository file)) = project)
                                              files);
                                byRepository =
                                  (case cs_repository args of
                                     None \<Rightarrow> byProject
                                   | Some repository \<Rightarrow>
                                       if repository = [] then byProject
                                       else filter (\<lambda>file. hr_slug (ch_repository file) = repository)
                                              byProject);
                                done = (\<lambda>filteredFiles.
                                  [progress,
                                   Done \<lparr>cr_files = filteredFiles,
                                         cr_totalCount = int (length filteredFiles)\<rparr>])
                            in
                            case cs_fileGlob args of
                              None \<Rightarrow> done byRepository
                            | Some fileGlob \<Rightarrow>
                                if fileGlob = [] then done byRepository
                                else (case RegExp (globRegexSource fileGlob) [] of
                                        Inl e \<Rightarrow> caught e
                                      | Inr globRegex_test \<Rightarrow>
                                          done (filter (\<lambda>file. globRegex_test (ch_file file))
                                                  byRepository)))))))"

subsection \<open>An example code search server\<close>

definition exampleHit :: "string \<Rightarrow> CodeHit" where
  "exampleHit path =
     \<lparr>ch_repository =
        \<lparr>hr_slug = ''web'', hr_id = 1, hr_name = ''web'', hr_description = None,
         hr_project = \<lparr>hp_key = ''SRC'', hp_id = 1, hp_name = ''Source''\<rparr>\<rparr>,
      ch_file = path, ch_hitContexts = [[\<lparr>hl_line = 1, hl_text = ''TODO''\<rparr>]], ch_hitCount = 1\<rparr>"

definition exampleCodeResponse :: "string list \<Rightarrow> CodeSearchResponse BitbucketAPIResponse" where
  "exampleCodeResponse paths =
     \<lparr>ok = True, status = 200, statusText = ''OK'',
      data = Some \<lparr>csr_code = Some
        \<lparr>sc_category = ''primary'', sc_count = 40, sc_nextStart = 25, sc_start = 0,
         sc_values = map exampleHit paths, sc_isLastPage = False\<rparr>\<rparr>,
      responseText = None\<rparr>"

definition exampleCodeArgs :: "string \<Rightarrow> CodeSearchToolArgs" where
  "exampleCodeArgs fileGlob =
     \<lparr>cs_query = ''TODO'', cs_project = Some ''SRC'', cs_repository = None,
      cs_fileGlob = Some fileGlob, cs_limit = None\<rparr>"

subsection \<open>Example inputs for the pattern filters\<close>

definition exampleLegacyProject :: BitbucketProject where
  "exampleLegacyProject =
     \<lparr>bp_key = ''TL'', bp_id = 2, bp_name = ''Tools (Legacy)'', bp_description = Some ''old tools'',
      bp_public = True, bp_type = ''NORMAL''\<rparr>"

definition exampleTwoProjectsFetch ::
  "string \<Rightarrow> unit \<Rightarrow> string + BitbucketProject BitbucketPaginatedResponse BitbucketAPIResponse" where
  "exampleTwoProjectsFetch path config =
     Inr \<lparr>ok = True, status = 200, statusText = ''OK'',
          data = Some \<lparr>pg_values = [exampleProject, exampleLegacyProject], pg_size = Some 2,
                       pg_isLastPage = True, pg_start = Some 0, pg_limit = Some 30,
                       pg_nextPageStart = None\<rparr>,
          responseText = None\<rparr>"

definition exampleCodeFetch ::
  "string list \<Rightarrow> string \<Rightarrow> SearchRequestBody \<Rightarrow> unit \<Rightarrow>
   string + CodeSearchResponse BitbucketAPIResponse" where
  "exampleCodeFetch paths path body config = Inr (exampleCodeResponse paths)"

text \<open>The terms of \<open>^.[^/]*/[^/]*\.ext$\<close> and of \<open>^[^/]*\.ext$\<close>.\<close>

definition doubleStarTerms :: "string \<Rightarrow> regexTerm list" where
  "doubleStarTerms ext =
     [Bol, One AnyChar, Star (CharClass True ''/''), One (Lit CHR ''/''),
      Star (CharClass True ''/''), One (Lit CHR ''.'')] @ map (\<lambda>c. One (Lit c)) ext @ [Eol]"

definition singleStarTerms :: "string \<Rightarrow> regexTerm list" where
  "singleStarTerms ext =
     [Bol, Star (CharClass True ''/''), One (Lit CHR ''.'')] @ map (\<lambda>c. One (Lit c)) ext @ [Eol]"

section \<open>File Reader (\<open>bitbucket_read\<close>)\<close>

record BitbucketReadToolArgs =
  rd_project :: string
  rd_repository :: string
  rd_path :: string
  rd_read_range :: "(int \<times> int) option"

record ReadResult =
  rr_absolutePath :: string
  rr_content :: string
  rr_contentURL :: "string option"

definition normalizePath :: "string \<Rightarrow> string \<Rightarrow> string \<Rightarrow> string" where
  "normalizePath project repository path =
     (let withoutScheme = (if startsWith path ''file://'' then drop 7 path else path);
          prefix = ''/'' @ project @ ''/'' @ repository @ ''/'';
          withoutPrefix = (if startsWith withoutScheme prefix
                           then drop (length prefix) withoutScheme else withoutScheme)
      in if startsWith withoutPrefix ''/'' then drop 1 withoutPrefix else withoutPrefix)"

text \<open>
  The numbered lines, before they are joined:
  \<open>lines.slice(startLine - 1, endLine).map((line, idx) => `${startLine + idx}: ${line}`)\<close>.
\<close>

definition readStartLine :: "(int \<times> int) option \<Rightarrow> int" where
  "readStartLine read_range = (case read_range of None \<Rightarrow> 1 | Some (a, b) \<Rightarrow> max 1 a)"

definition readEndLine :: "string list \<Rightarrow> (int \<times> int) option \<Rightarrow> int" where
  "readEndLine lines read_range =
     (case read_range of
        None \<Rightarrow> int (length lines)
      | Some (a, b) \<Rightarrow> min (int (length lines)) b)"

definition numberedLines :: "string list \<Rightarrow> (int \<times> int) option \<Rightarrow> string list" where
  "numberedLines lines read_range =
     (let startLine = readStartLine read_range;
          endLine = readEndLine lines read_range
      in map (\<lambda>(idx, line). showInt (startLine + int idx) @ '': '' @ line)
           (enumerate 0 (jsSlice lines (startLine - 1) endLine)))"

text \<open>
  The conversion \<open>toFilePathOrURI(toURIString(URI.from({scheme: 'file', path})))\<close>
  belongs to an external package; it is the parameter \<open>toFileURI\<close>.
\<close>

definition bitbucketReadTool ::
  "(string + 'cfg) \<Rightarrow> (string \<Rightarrow> 'cfg \<Rightarrow> string + string BitbucketAPIResponse) \<Rightarrow>
   (string \<Rightarrow> string) \<Rightarrow> BitbucketReadToolArgs \<Rightarrow> (string list, ReadResult) ToolRun list" where
  "bitbucketReadTool getLatest fetchFromBitbucketAPI toFileURI args =
     (let project = rd_project args;
          repository = rd_repository args;
          path = rd_path args;
          progress = InProgress [''Reading file '' @ dquote @ path @ dquote @ '' from '' @
                                 project @ ''/'' @ repository @ ''...''];
          relativePath = normalizePath project repository path;
          bitbucketPath = ''rest/api/1.0/projects/'' @ project @ ''/repos/'' @ repository @
                          ''/raw/'' @ relativePath @ ''?at=HEAD'';
          caught = (\<lambda>message.
            [progress, Error (''Error reading file: '' @ (if message = [] then ''Error'' else message))])
      in
      case getLatest of
        Inl e \<Rightarrow> caught e
      | Inr config \<Rightarrow>
          (case fetchFromBitbucketAPI bitbucketPath config of
             Inl e \<Rightarrow> caught e
           | Inr response \<Rightarrow>
               if \<not> ok response then
                 [progress,
                  Error (''Failed to read file: '' @ showInt (status response) @ '' '' @
                         (if statusText response = [] then ''Unknown error''
                          else statusText response))]
               else
                 (let content = (case responseText response of None \<Rightarrow> [] | Some t \<Rightarrow> t);
                      lines = splitLines content
                  in
                  [progress,
                   Done \<lparr>rr_absolutePath =
                           toFileURI (''/'' @ project @ ''/'' @ repository @ ''/'' @ relativePath),
                         rr_content = joinWith [newline] (numberedLines lines (rd_read_range args)),
                         rr_contentURL = None\<rparr>])))"

subsection \<open>An example file\<close>

definition exampleFile :: string where
  "exampleFile = ''alpha'' @ [newline] @ ''beta'' @ [newline] @ ''gamma''"

definition exampleReadFetch :: "string \<Rightarrow> unit \<Rightarrow> string + string BitbucketAPIResponse" where
  "exampleReadFetch path config =
     Inr \<lparr>ok = True, status = 200, statusText = ''OK'', data = None,
          responseText = Some exampleFile\<rparr>"

definition exampleReadArgs :: "(int \<times> int) option \<Rightarrow> BitbucketReadToolArgs" where
  "exampleReadArgs read_range =
     \<lparr>rd_project = ''SRC'', rd_repository = ''web'', rd_path = ''file:///SRC/web/notes.txt'',
      rd_read_range = read_range\<rparr>"

section \<open>File-Tree Glob Matcher (\<open>bitbucket_glob\<close>)\<close>

record BitbucketGlobToolArgs =
  gl_project :: string
  gl_repository :: string
  gl_filePattern :: string
  gl_limit :: "int option"
  gl_offset :: "int option"

datatype ItemType = FILE | DIRECTORY

record ItemPath =
  components :: "string list"
  toString :: string

record BitbucketFileItem =
  fi_path :: ItemPath
  fi_type :: ItemType

record BrowseChildren =
  bc_values :: "BitbucketFileItem list"
  bc_size :: int
  bc_isLastPage :: bool
  bc_start :: int
  bc_limit :: int
  bc_nextPageStart :: "int option"

record BitbucketBrowseResponse =
  br_children :: BrowseChildren

text \<open>
  \<open>browse path start\<close> is the outcome of awaiting the fetch of the page of directory
  \<open>path\<close> at cursor \<open>start\<close>.
\<close>

type_synonym browse = "string \<Rightarrow> int \<Rightarrow> string + BitbucketBrowseResponse BitbucketAPIResponse"

definition itemPath :: "BitbucketFileItem \<Rightarrow> string" where
  "itemPath item = joinWith ''/'' (components (fi_path item))"

text \<open>
  The cursor after a page that is not the last:
  \<open>if (!isLastPage && nextPageStart) start = nextPageStart\<close>; a missing or zero
  \<open>nextPageStart\<close> leaves the cursor where it is.
\<close>

definition nextStart :: "int \<Rightarrow> BrowseChildren \<Rightarrow> int" where
  "nextStart start children =
     (case bc_nextPageStart children of
        None \<Rightarrow> start
      | Some n \<Rightarrow> if n = 0 then start else n)"

text \<open>
  The traversal. \<open>fetchDirectory\<close> is one run of the \<open>while (!isLastPage)\<close> loop from
  the cursor \<open>start\<close>, \<open>fetchDirectoryItems\<close> is the \<open>for (const item of items)\<close>
  loop. Both thread the array \<open>allFiles\<close>. The loop need not terminate, so the model
  takes fuel: each page fetch costs one unit, and \<open>None\<close> means that the fuel ran out.
  \<open>Some (Inl e)\<close> is a rejected fetch, which leaves the traversal as an exception;
  \<open>Some (Inr files)\<close> is the normal return.
\<close>

function fetchDirectory ::
    "nat \<Rightarrow> browse \<Rightarrow> string \<Rightarrow> int \<Rightarrow> string list \<Rightarrow> (string + string list) option"
  and fetchDirectoryItems ::
    "nat \<Rightarrow> browse \<Rightarrow> BitbucketFileItem list \<Rightarrow> string list \<Rightarrow> (string + string list) option"
where
  "fetchDirectory 0 browse path start allFiles = None"
| "fetchDirectory (Suc fuel) browse path start allFiles =
     (case browse path start of
        Inl e \<Rightarrow> Some (Inl e)
      | Inr response \<Rightarrow>
          if \<not> ok response then Some (Inr allFiles)
          else (case data response of
                  None \<Rightarrow> Some (Inr allFiles)
                | Some d \<Rightarrow>
                    (case fetchDirectoryItems fuel browse (bc_values (br_children d)) allFiles of
                       None \<Rightarrow> None
                     | Some (Inl e) \<Rightarrow> Some (Inl e)
                     | Some (Inr files) \<Rightarrow>
                         if bc_isLastPage (br_children d) then Some (Inr files)
                         else fetchDirectory fuel browse path
                                (nextStart start (br_children d)) files)))"
| "fetchDirectoryItems fuel browse [] allFiles = Some (Inr allFiles)"
| "fetchDirectoryItems fuel browse (item # items) allFiles =
     (case fi_type item of
        FILE \<Rightarrow> fetchDirectoryItems fuel browse items (allFiles @ [itemPath item])
      | DIRECTORY \<Rightarrow>
          (case fetchDirectory fuel browse (itemPath item) 0 allFiles of
             None \<Rightarrow> None
           | Some (Inl e) \<Rightarrow> Some (Inl e)
           | Some (Inr files) \<Rightarrow> fetchDirectoryItems fuel browse items files))"
  by pat_completeness auto
termination
  by (relation "inv_image (less_than <*lex*> less_than)
        (\<lambda>x. case x of
                Inl (fuel, browse, path, start, allFiles) \<Rightarrow> (fuel, 0)
              | Inr (fuel, browse, items, allFiles) \<Rightarrow> (fuel, Suc (length items)))")
    auto

definition browseApiPath :: "string \<Rightarrow> string \<Rightarrow> string \<Rightarrow> int \<Rightarrow> string" where
  "browseApiPath project repository path start =
     ''rest/api/1.0/projects/'' @ project @ ''/repos/'' @ repository @ ''/browse'' @
     (if path = [] then [] else ''/'' @ path) @ ''?limit='' @ showInt 1000 @ ''&start='' @
     showInt start"

definition fetchAllFiles ::
  "nat \<Rightarrow> (string \<Rightarrow> 'cfg \<Rightarrow> string + BitbucketBrowseResponse BitbucketAPIResponse) \<Rightarrow>
   string \<Rightarrow> string \<Rightarrow> 'cfg \<Rightarrow> (string + string list) option" where
  "fetchAllFiles fuel fetchFromBitbucketAPI project repository config =
     fetchDirectory fuel
       (\<lambda>path start. fetchFromBitbucketAPI (browseApiPath project repository path start) config)
       [] 0 []"

text \<open>
  The pagination \<open>limit ? matchedFiles.slice(offset, offset + limit) : matchedFiles.slice(offset)\<close>
  and the conversion of the page to file identifiers.
\<close>

definition paginate :: "int \<Rightarrow> int \<Rightarrow> 'a list \<Rightarrow> 'a list" where
  "paginate limit offset matchedFiles =
     (if limit \<noteq> 0 then jsSlice matchedFiles offset (offset + limit)
      else jsSliceFrom matchedFiles offset)"

definition globFiles ::
  "(string \<Rightarrow> string) \<Rightarrow> (string \<Rightarrow> bool) \<Rightarrow> string \<Rightarrow> string \<Rightarrow> int \<Rightarrow> int \<Rightarrow>
   string list \<Rightarrow> string list" where
  "globFiles toFileURI isMatch project repository limit offset filePaths =
     map (\<lambda>path. toFileURI (''/'' @ project @ ''/'' @ repository @ ''/'' @ path))
       (paginate limit offset (filter isMatch filePaths))"

definition globProgress :: "BitbucketGlobToolArgs \<Rightarrow> (string list, string list) ToolRun" where
  "globProgress args =
     InProgress [''Finding files matching '' @ dquote @ gl_filePattern args @ dquote @ '' in '' @
                 gl_project args @ ''/'' @ gl_repository args @ ''...'']"

text \<open>
  The glob compiler \<open>picomatch\<close> belongs to an external package; it is a parameter:
  \<open>Inl message\<close> when it throws on the pattern, \<open>Inr isMatch\<close> otherwise.
\<close>

definition bitbucketGlobTool ::
  "nat \<Rightarrow> (string + 'cfg) \<Rightarrow>
   (string \<Rightarrow> 'cfg \<Rightarrow> string + BitbucketBrowseResponse BitbucketAPIResponse) \<Rightarrow>
   (string \<Rightarrow> string + (string \<Rightarrow> bool)) \<Rightarrow> (string \<Rightarrow> string) \<Rightarrow>
   BitbucketGlobToolArgs \<Rightarrow> (string list, string list) ToolRun list option" where
  "bitbucketGlobTool fuel getLatest fetchFromBitbucketAPI picomatch toFileURI args =
     (let project = gl_project args;
          repository = gl_repository args;
          filePattern = gl_filePattern args;
          limit = (case gl_limit args of None \<Rightarrow> 100 | Some l \<Rightarrow> l);
          offset = (case gl_offset args of None \<Rightarrow> 0 | Some off \<Rightarrow> off);
          caught = (\<lambda>message.
            [globProgress args,
             Error (''Error matching files: '' @ (if message = [] then ''Error'' else message))])
      in
      case getLatest of
        Inl e \<Rightarrow> Some (caught e)
      | Inr config \<Rightarrow>
          (case fetchAllFiles fuel fetchFromBitbucketAPI project repository config of
             None \<Rightarrow> None
           | Some (Inl e) \<Rightarrow> Some (caught e)
           | Some (Inr filePaths) \<Rightarrow>
               (case picomatch filePattern of
                  Inl e \<Rightarrow> Some (caught e)
                | Inr isMatch \<Rightarrow>
                    Some [globProgress args,
                          Done (globFiles toFileURI isMatch project repository limit offset
                                  filePaths)])))"

subsection \<open>An example repository\<close>

text \<open>
  The root directory is listed in two pages (cursors 0 and 3): the files \<open>a.ts\<close> and
  \<open>b.js\<close>, the directory \<open>dir\<close> with the file \<open>dir/c.ts\<close>, and the directory
  \<open>private\<close>, whose listing is refused.
\<close>

definition exampleItem :: "string list \<Rightarrow> ItemType \<Rightarrow> BitbucketFileItem" where
  "exampleItem parts kind =
     \<lparr>fi_path = \<lparr>components = parts, toString = joinWith ''/'' parts\<rparr>, fi_type = kind\<rparr>"

definition exampleListing ::
  "BitbucketFileItem list \<Rightarrow> bool \<Rightarrow> int \<Rightarrow> int option \<Rightarrow>
   BitbucketBrowseResponse BitbucketAPIResponse" where
  "exampleListing items final start next =
     \<lparr>ok = True, status = 200, statusText = ''OK'',
      data = Some \<lparr>br_children =
        \<lparr>bc_values = items, bc_size = int (length items), bc_isLastPage = final,
         bc_start = start, bc_limit = 1000, bc_nextPageStart = next\<rparr>\<rparr>,
      responseText = None\<rparr>"

definition exampleForbidden :: "BitbucketBrowseResponse BitbucketAPIResponse" where
  "exampleForbidden =
     \<lparr>ok = False, status = 403, statusText = ''Forbidden'', data = None, responseText = None\<rparr>"

definition exampleBrowse :: browse where
  "exampleBrowse path start =
     (if path = [] \<and> start = 0 then
        Inr (exampleListing [exampleItem [''a.ts''] FILE, exampleItem [''private''] DIRECTORY,
                             exampleItem [''dir''] DIRECTORY] False 0 (Some 3))
      else if path = [] \<and> start = 3 then
        Inr (exampleListing [exampleItem [''b.js''] FILE] True 3 None)
      else if path = ''dir'' \<and> start = 0 then
        Inr (exampleListing [exampleItem [''dir'', ''c.ts''] FILE] True 0 None)
      else Inr exampleForbidden)"

definition exampleGlobFetch ::
  "string \<Rightarrow> unit \<Rightarrow> string + BitbucketBrowseResponse BitbucketAPIResponse" where
  "exampleGlobFetch apiPath config =
     (if apiPath = browseApiPath ''SRC'' ''web'' [] 0 then exampleBrowse [] 0
      else if apiPath = browseApiPath ''SRC'' ''web'' [] 3 then exampleBrowse [] 3
      else if apiPath = browseApiPath ''SRC'' ''web'' ''dir'' 0 then exampleBrowse ''dir'' 0
      else Inr exampleForbidden)"

text \<open>
  A stand-in for the glob compiler: it throws on the empty pattern, reads
  \<open>**/*suffix\<close> as ``the path ends with the suffix'', and any other pattern as the
  path itself.
\<close>

definition examplePicomatch :: "string \<Rightarrow> string + (string \<Rightarrow> bool)" where
  "examplePicomatch pattern =
     (if pattern = [] then Inl ''Expected pattern to be a non-empty string''
      else if startsWith pattern ''**/*'' then
        Inr (\<lambda>path. startsWith (rev path) (rev (drop 4 pattern)))
      else Inr (\<lambda>path. path = pattern))"

definition exampleGlobArgs :: "string \<Rightarrow> int option \<Rightarrow> int option \<Rightarrow> BitbucketGlobToolArgs" where
  "exampleGlobArgs pattern limit offset =
     \<lparr>gl_project = ''SRC'', gl_repository = ''web'', gl_filePattern = pattern,
      gl_limit = limit, gl_offset = offset\<rparr>"

definition exampleFileURI :: "string \<Rightarrow> string" where
  "exampleFileURI path = ''file://'' @ path"

section \<open>Verified properties\<close>

subsection \<open>Project Lister\<close>

lemma jsRemainder_pos: "0 < b \<Longrightarrow> (jsRemainder a b \<noteq> Some 0) = (a mod b \<noteq> 0)"
proof -
  assume b: "0 < b"
  have "(\<bar>a\<bar> mod b = 0) = (a mod b = 0)"
    by (simp add: abs_if mod_eq_0_iff_dvd)
  with b show ?thesis
    by (auto simp: jsRemainder_def sgn_if)
qed

text \<open>
  C5. With \<open>limit > 0\<close> and \<open>offset % limit \<noteq> 0\<close>, the run consists of exactly one
  event, the error event whose message suggests the offsets \<open>0\<close>, \<open>limit\<close> and
  \<open>2 * limit\<close>, and it asks nothing of its collaborators: neither the configuration nor
  the network is touched. (For a positive limit the remainder of the code is zero
  exactly when \<open>offset mod limit\<close> is, by \<open>jsRemainder_pos\<close>.)
\<close>

theorem list_projects_offset_validation:
  assumes "limit = (case lp_limit args of None \<Rightarrow> 30 | Some l \<Rightarrow> l)"
    and "offset = (case lp_offset args of None \<Rightarrow> 0 | Some off \<Rightarrow> off)"
    and "0 < limit"
    and "jsRemainder offset limit \<noteq> Some 0"
  shows "bitbucketListProjectsTool getLatest fetchFromBitbucketAPI RegExp args =
           \<lparr>events = [Error (''offset ('' @ showInt offset @ '') must be divisible by limit ('' @
                              showInt limit @ '') for pagination. Try offset values like 0, '' @
                              showInt limit @ '', '' @ showInt (limit * 2) @ '', etc.'')],
            calls = []\<rparr>"
  using assms
  by (simp add: bitbucketListProjectsTool_def Let_def listProjectsOffsetMessage_def)

theorem list_projects_offset_validation_witness:
  "bitbucketListProjectsTool (Inr ()) (\<lambda>path config. Inl []) (\<lambda>source flags. Inl [])
     \<lparr>lp_pattern = None, lp_limit = Some 2, lp_offset = Some 3\<rparr> =
   \<lparr>events = [Error (''offset (3) must be divisible by limit (2) for pagination. '' @
                      ''Try offset values like 0, 2, 4, etc.'')],
    calls = []\<rparr>"
  using list_projects_offset_validation
    [of 2 "\<lparr>lp_pattern = None, lp_limit = Some 2, lp_offset = Some 3\<rparr>" 3
        "Inr ()" "\<lambda>path config. Inl []" "\<lambda>source flags. Inl []"]
  by (simp add: jsRemainder_def showInt_def showNat.simps)

text \<open>What a run that emits a done event went through.\<close>

lemma list_projects_done:
  assumes "Done r \<in> set (events (bitbucketListProjectsTool getLatest fetchFromBitbucketAPI RegExp args))"
  shows "\<exists>config response d.
           getLatest = Inr config \<and>
           fetchFromBitbucketAPI
             (listProjectsApiPath (case lp_limit args of None \<Rightarrow> 30 | Some l \<Rightarrow> l)
                                  (case lp_offset args of None \<Rightarrow> 0 | Some off \<Rightarrow> off))
             config = Inr response \<and>
           ok response \<and> data response = Some d \<and>
           lr_projects r = map toProjectResult (filterProjects RegExp (lp_pattern args) (pg_values d)) \<and>
           lr_totalCount r = listProjectsTotalCount (pg_size d) (lr_projects r)"
  using assms
  by (auto simp: bitbucketListProjectsTool_def Let_def split: if_splits sum.splits option.splits)

lemma list_projects_success:
  assumes "jsRemainder (case lp_offset args of None \<Rightarrow> 0 | Some off \<Rightarrow> off)
                       (case lp_limit args of None \<Rightarrow> 30 | Some l \<Rightarrow> l) = Some 0"
    and "getLatest = Inr config"
    and "fetchFromBitbucketAPI
           (listProjectsApiPath (case lp_limit args of None \<Rightarrow> 30 | Some l \<Rightarrow> l)
                                (case lp_offset args of None \<Rightarrow> 0 | Some off \<Rightarrow> off))
           config = Inr response"
    and "ok response"
    and "data response = Some d"
  shows "events (bitbucketListProjectsTool getLatest fetchFromBitbucketAPI RegExp args) =
           [InProgress (listProjectsProgress (lp_pattern args)),
            Done \<lparr>lr_projects = map toProjectResult (filterProjects RegExp (lp_pattern args) (pg_values d)),
                  lr_totalCount = listProjectsTotalCount (pg_size d)
                    (map toProjectResult (filterProjects RegExp (lp_pattern args) (pg_values d)))\<rparr>]"
  using assms by (simp add: bitbucketListProjectsTool_def Let_def)

text \<open>
  C6, as stated, fails where the server reports \<open>size = 0\<close> with a page that is not
  empty: the field is present, and the total count is the length of the result.
\<close>

theorem list_projects_totalCount_counterexample:
  "pg_size (examplePage (Some 0)) = Some 0 \<and>
   events (bitbucketListProjectsTool (Inr ()) (exampleFetch (Some 0)) (\<lambda>source flags. Inl [])
             \<lparr>lp_pattern = None, lp_limit = None, lp_offset = None\<rparr>) =
     [InProgress [''Fetching projects...''],
      Done \<lparr>lr_projects = [toProjectResult exampleProject], lr_totalCount = 1\<rparr>] \<and>
   \<not> (\<forall>r. Done r \<in> set (events (bitbucketListProjectsTool (Inr ()) (exampleFetch (Some 0))
                                   (\<lambda>source flags. Inl [])
                                   \<lparr>lp_pattern = None, lp_limit = None, lp_offset = None\<rparr>)) \<longrightarrow>
            Some (lr_totalCount r) = pg_size (examplePage (Some 0)))"
proof -
  have run: "events (bitbucketListProjectsTool (Inr ()) (exampleFetch (Some 0)) (\<lambda>source flags. Inl [])
             \<lparr>lp_pattern = None, lp_limit = None, lp_offset = None\<rparr>) =
     [InProgress [''Fetching projects...''],
      Done \<lparr>lr_projects = [toProjectResult exampleProject], lr_totalCount = 1\<rparr>]"
    by (simp add: bitbucketListProjectsTool_def Let_def jsRemainder_def exampleFetch_def
        examplePage_def listProjectsProgress_def filterProjects_def listProjectsTotalCount_def)
  have reported: "pg_size (examplePage (Some 0)) = Some 0"
    by (simp add: examplePage_def)
  from run reported show ?thesis
    by simp
qed

text \<open>
  C6, amended. In every run that emits a done event, the total count is the \<open>size\<close>
  field of the fetched page when that field is present and not zero, whatever the
  pattern filter removed; it is the length of the filtered result when the field is
  absent or zero.
\<close>

theorem list_projects_totalCount:
  assumes "Done r \<in> set (events (bitbucketListProjectsTool getLatest fetchFromBitbucketAPI RegExp args))"
  shows "\<exists>config response d.
           getLatest = Inr config \<and>
           fetchFromBitbucketAPI
             (listProjectsApiPath (case lp_limit args of None \<Rightarrow> 30 | Some l \<Rightarrow> l)
                                  (case lp_offset args of None \<Rightarrow> 0 | Some off \<Rightarrow> off))
             config = Inr response \<and>
           data response = Some d \<and>
           lr_projects r = map toProjectResult (filterProjects RegExp (lp_pattern args) (pg_values d)) \<and>
           lr_totalCount r =
             (case pg_size d of
                None \<Rightarrow> int (length (lr_projects r))
              | Some n \<Rightarrow> if n = 0 then int (length (lr_projects r)) else n)"
proof -
  from list_projects_done [OF assms] obtain config response d where
    "getLatest = Inr config"
    "fetchFromBitbucketAPI
       (listProjectsApiPath (case lp_limit args of None \<Rightarrow> 30 | Some l \<Rightarrow> l)
                            (case lp_offset args of None \<Rightarrow> 0 | Some off \<Rightarrow> off))
       config = Inr response"
    "data response = Some d"
    "lr_projects r = map toProjectResult (filterProjects RegExp (lp_pattern args) (pg_values d))"
    "lr_totalCount r = listProjectsTotalCount (pg_size d) (lr_projects r)"
    by blast
  then show ?thesis
    unfolding listProjectsTotalCount_def by blast
qed

theorem list_projects_totalCount_witness:
  "Done \<lparr>lr_projects = [toProjectResult exampleProject], lr_totalCount = 5\<rparr>
     \<in> set (events (bitbucketListProjectsTool (Inr ()) (exampleFetch (Some 5))
                      (\<lambda>source flags. Inl [])
                      \<lparr>lp_pattern = None, lp_limit = None, lp_offset = None\<rparr>)) \<and>
   (\<exists>response d.
      exampleFetch (Some 5) (listProjectsApiPath 30 0) () = Inr response \<and>
      data response = Some d \<and> pg_size d = Some 5)"
proof -
  have run: "Done \<lparr>lr_projects = [toProjectResult exampleProject], lr_totalCount = 5\<rparr>
     \<in> set (events (bitbucketListProjectsTool (Inr ()) (exampleFetch (Some 5))
                      (\<lambda>source flags. Inl [])
                      \<lparr>lp_pattern = None, lp_limit = None, lp_offset = None\<rparr>))"
    by (simp add: bitbucketListProjectsTool_def Let_def jsRemainder_def exampleFetch_def
        examplePage_def listProjectsProgress_def filterProjects_def listProjectsTotalCount_def)
  from list_projects_totalCount [OF run] run show ?thesis
    by (auto simp: exampleFetch_def examplePage_def)
qed

text \<open>
  C10. When the constructor of the regular expression throws on the pattern, the run
  raises nothing and emits no error event for it: with a successful fetch its events
  are the progress event and a done event, and the projects of the result are those
  whose lower-cased name, key or (non-empty) description contains the lower-cased
  pattern.
\<close>

theorem list_projects_invalid_regex_fallback:
  assumes "lp_pattern args = Some pat"
    and "RegExp pat ''i'' = Inl e"
    and "jsRemainder (case lp_offset args of None \<Rightarrow> 0 | Some off \<Rightarrow> off)
                     (case lp_limit args of None \<Rightarrow> 30 | Some l \<Rightarrow> l) = Some 0"
    and "getLatest = Inr config"
    and "fetchFromBitbucketAPI
           (listProjectsApiPath (case lp_limit args of None \<Rightarrow> 30 | Some l \<Rightarrow> l)
                                (case lp_offset args of None \<Rightarrow> 0 | Some off \<Rightarrow> off))
           config = Inr response"
    and "ok response"
    and "data response = Some d"
    and "kept = filter (\<lambda>project.
             includesStr (toLowerCase (bp_name project)) (toLowerCase pat) \<or>
             includesStr (toLowerCase (bp_key project)) (toLowerCase pat) \<or>
             (case bp_description project of
                None \<Rightarrow> False
              | Some dsc \<Rightarrow> dsc \<noteq> [] \<and> includesStr (toLowerCase dsc) (toLowerCase pat)))
           (pg_values d)"
  shows "events (bitbucketListProjectsTool getLatest fetchFromBitbucketAPI RegExp args) =
           [InProgress (listProjectsProgress (Some pat)),
            Done \<lparr>lr_projects = map toProjectResult kept,
                  lr_totalCount = listProjectsTotalCount (pg_size d) (map toProjectResult kept)\<rparr>]"
proof -
  have incl: "includesStr s []" for s
    by (induction s) simp_all
  have "filterProjects RegExp (Some pat) (pg_values d) = kept"
  proof (cases "pat = []")
    case True
    then have "kept = pg_values d"
      using assms(8) by (simp add: toLowerCase_def incl)
    with True show ?thesis
      by (simp add: filterProjects_def)
  next
    case False
    then show ?thesis
      using assms(2,8) by (simp add: filterProjects_def substringProjectMatch_def [abs_def])
  qed
  moreover note list_projects_success
    [where args = args and getLatest = getLatest and config = config and response = response
       and fetchFromBitbucketAPI = fetchFromBitbucketAPI and d = d and RegExp = RegExp]
  ultimately show ?thesis
    using assms(1,3-7) by simp
qed

theorem list_projects_invalid_regex_fallback_witness:
  "fragmentEngine ''('' ''i'' = Inl ''Invalid regular expression: Unterminated group'' \<and>
   events (bitbucketListProjectsTool (Inr ()) exampleTwoProjectsFetch fragmentEngine
             \<lparr>lp_pattern = Some ''('', lp_limit = None, lp_offset = None\<rparr>) =
     [InProgress [''Fetching projects matching '' @ dquote @ ''('' @ dquote @ ''...''],
      Done \<lparr>lr_projects = [toProjectResult exampleLegacyProject], lr_totalCount = 2\<rparr>]"
proof -
  have throws: "fragmentEngine ''('' ''i'' = Inl ''Invalid regular expression: Unterminated group''"
    by (simp add: fragmentEngine_def jsRegExp_def parseAtom_def backslash_def)
  have lower: "toLowerCase ''Platform'' = ''platform''" "toLowerCase ''P1'' = ''p1''"
    "toLowerCase ''Tools (Legacy)'' = ''tools (legacy)''" "toLowerCase ''TL'' = ''tl''"
    "toLowerCase ''('' = ''(''"
    by code_simp+
  have fetched: "exampleTwoProjectsFetch p () =
      Inr \<lparr>ok = True, status = 200, statusText = ''OK'',
           data = Some \<lparr>pg_values = [exampleProject, exampleLegacyProject], pg_size = Some 2,
                        pg_isLastPage = True, pg_start = Some 0, pg_limit = Some 30,
                        pg_nextPageStart = None\<rparr>,
           responseText = None\<rparr>" for p
    by (simp add: exampleTwoProjectsFetch_def)
  show ?thesis
    using throws
      list_projects_invalid_regex_fallback
        [where args = "\<lparr>lp_pattern = Some ''('', lp_limit = None, lp_offset = None\<rparr>"
           and pat = "''(''" and RegExp = fragmentEngine and getLatest = "Inr ()" and config = "()"
           and fetchFromBitbucketAPI = exampleTwoProjectsFetch,
         OF _ throws _ refl fetched _ _ refl]
    by (simp add: jsRemainder_def lower exampleProject_def exampleLegacyProject_def
        listProjectsProgress_def listProjectsTotalCount_def)
qed

subsection \<open>Repository Searcher\<close>

text \<open>
  C8. Once the request has resolved with a response: a response that is not ok gives
  the progress event and one error event whose message carries the status, the status
  text and (when there is one) the first 100 characters of the response text; an ok
  response without data gives one error event; an ok response whose data has no
  \<open>repositories\<close> field gives a done event with an empty array and count 0; otherwise
  the done event carries \<open>data.repositories.values\<close> and the reported count unchanged.
\<close>

theorem search_repositories_outcomes:
  assumes "getLatest = Inr config"
    and "fetchFromBitbucketAPI searchEndpoint
           \<lparr>rb_query = sr_query args, rb_entities = [''repositories''],
            rb_primary = (case sr_limit args of None \<Rightarrow> 30 | Some l \<Rightarrow> l)\<rparr> config = Inr response"
    and "progress = InProgress [''Searching for repositories matching '' @ dquote @ sr_query args @
                                dquote @ ''...'']"
    and "run = bitbucketSearchRepositoriesTool getLatest fetchFromBitbucketAPI args"
  shows "(\<not> ok response \<longrightarrow>
            run = [progress,
                   Error (''Error searching Bitbucket repositories: '' @
                          ''Bitbucket repository search failed: '' @ showInt (status response) @
                          '' '' @ statusText response @
                          (case responseText response of
                             None \<Rightarrow> []
                           | Some t \<Rightarrow> if t = [] then [] else '' - '' @ take 100 t))]) \<and>
         (ok response \<and> data response = None \<longrightarrow>
            run = [progress,
                   Error (''Error searching Bitbucket repositories: '' @
                          ''No data returned from Bitbucket repository search'')]) \<and>
         (\<forall>d. ok response \<and> data response = Some d \<and> srr_repositories d = None \<longrightarrow>
            run = [progress, Done \<lparr>srs_repositories = [], srs_totalCount = 0\<rparr>]) \<and>
         (\<forall>d found. ok response \<and> data response = Some d \<and> srr_repositories d = Some found \<longrightarrow>
            run = [progress,
                   Done \<lparr>srs_repositories = sc_values found, srs_totalCount = sc_count found\<rparr>])"
  using assms
  by (simp add: bitbucketSearchRepositoriesTool_def Let_def failedSuffix_def)

theorem search_repositories_outcomes_witness:
  "bitbucketSearchRepositoriesTool (Inr ())
     (exampleSearchFetch (exampleSearchResponse False None)) exampleSearchArgs =
     [InProgress [''Searching for repositories matching '' @ dquote @ ''auth'' @ dquote @ ''...''],
      Error (''Error searching Bitbucket repositories: Bitbucket repository search failed: '' @
             ''503 Service Unavailable - index offline'')] \<and>
   bitbucketSearchRepositoriesTool (Inr ())
     (exampleSearchFetch (exampleSearchResponse True None)) exampleSearchArgs =
     [InProgress [''Searching for repositories matching '' @ dquote @ ''auth'' @ dquote @ ''...''],
      Error (''Error searching Bitbucket repositories: '' @
             ''No data returned from Bitbucket repository search'')] \<and>
   bitbucketSearchRepositoriesTool (Inr ())
     (exampleSearchFetch (exampleSearchResponse True (Some \<lparr>srr_repositories = None\<rparr>)))
     exampleSearchArgs =
     [InProgress [''Searching for repositories matching '' @ dquote @ ''auth'' @ dquote @ ''...''],
      Done \<lparr>srs_repositories = [], srs_totalCount = 0\<rparr>] \<and>
   bitbucketSearchRepositoriesTool (Inr ())
     (exampleSearchFetch
        (exampleSearchResponse True (Some \<lparr>srr_repositories = Some exampleRepositories\<rparr>)))
     exampleSearchArgs =
     [InProgress [''Searching for repositories matching '' @ dquote @ ''auth'' @ dquote @ ''...''],
      Done \<lparr>srs_repositories = [''auth-service'', ''auth-lib''], srs_totalCount = 7\<rparr>]"
proof -
  have fetched: "exampleSearchFetch response searchEndpoint
      \<lparr>rb_query = sr_query exampleSearchArgs, rb_entities = [''repositories''],
       rb_primary = (case sr_limit exampleSearchArgs of None \<Rightarrow> 30 | Some l \<Rightarrow> l)\<rparr> () =
      Inr response" for response :: "string SearchRepositoriesResponse BitbucketAPIResponse"
    by (simp add: exampleSearchFetch_def)
  have digits: "showInt 503 = ''503''"
    by (simp add: showInt_def showNat.simps)
  show ?thesis
    using search_repositories_outcomes
        [where getLatest = "Inr ()" and config = "()" and args = exampleSearchArgs
           and fetchFromBitbucketAPI = "exampleSearchFetch (exampleSearchResponse False None)"
           and response = "exampleSearchResponse False None",
         OF refl fetched refl refl]
      search_repositories_outcomes
        [where getLatest = "Inr ()" and config = "()" and args = exampleSearchArgs
           and fetchFromBitbucketAPI = "exampleSearchFetch (exampleSearchResponse True None)"
           and response = "exampleSearchResponse True None",
         OF refl fetched refl refl]
      search_repositories_outcomes
        [where getLatest = "Inr ()" and config = "()" and args = exampleSearchArgs
           and fetchFromBitbucketAPI = "exampleSearchFetch (exampleSearchResponse True (Some \<lparr>srr_repositories = None\<rparr>))"
           and response = "exampleSearchResponse True (Some \<lparr>srr_repositories = None\<rparr>)",
         OF refl fetched refl refl]
      search_repositories_outcomes
        [where getLatest = "Inr ()" and config = "()" and args = exampleSearchArgs
           and fetchFromBitbucketAPI = "exampleSearchFetch (exampleSearchResponse True (Some \<lparr>srr_repositories = Some exampleRepositories\<rparr>))"
           and response = "exampleSearchResponse True (Some \<lparr>srr_repositories = Some exampleRepositories\<rparr>)",
         OF refl fetched refl refl]
    by (simp add: exampleSearchResponse_def exampleSearchArgs_def exampleRepositories_def digits)
qed

subsection \<open>Code Searcher\<close>

text \<open>
  C7. In every run that emits a done event, the total count of the result is the
  length of its file array, whatever filters were given and whatever count the server
  reported.
\<close>

theorem code_search_totalCount:
  assumes "Done r \<in> set (bitbucketCodeSearchTool getLatest fetchFromBitbucketAPI RegExp args)"
  shows "cr_totalCount r = int (length (cr_files r))"
  using assms
  by (auto simp: bitbucketCodeSearchTool_def Let_def codeSearchProgress_def
      split: sum.splits option.splits if_splits)

lemma glob_go_regex:
  "fragmentEngine (globRegexSource ''**/*.go'') [] = Inr (regexTest False (doubleStarTerms ''go''))"
  by (simp add: fragmentEngine_def jsRegExp_def globRegexSource_def parseAtom_def parseBracket_def
      syntaxChars_def backslash_def doubleStarTerms_def)

theorem code_search_totalCount_witness:
  "Done \<lparr>cr_files = [exampleHit ''sub/dir.go''], cr_totalCount = 1\<rparr>
     \<in> set (bitbucketCodeSearchTool (Inr ())
               (exampleCodeFetch [''main.go'', ''util.py'', ''sub/dir.go''])
               fragmentEngine (exampleCodeArgs ''**/*.go'')) \<and>
   cr_totalCount \<lparr>cr_files = [exampleHit ''sub/dir.go''], cr_totalCount = 1\<rparr> =
     int (length (cr_files \<lparr>cr_files = [exampleHit ''sub/dir.go''], cr_totalCount = 1\<rparr>))"
proof -
  have run: "Done \<lparr>cr_files = [exampleHit ''sub/dir.go''], cr_totalCount = 1\<rparr>
     \<in> set (bitbucketCodeSearchTool (Inr ())
               (exampleCodeFetch [''main.go'', ''util.py'', ''sub/dir.go''])
               fragmentEngine (exampleCodeArgs ''**/*.go''))"
    by (simp add: bitbucketCodeSearchTool_def Let_def exampleCodeFetch_def exampleCodeResponse_def
        exampleCodeArgs_def glob_go_regex regexTest_def sameChar_def exampleHit_def
        doubleStarTerms_def)
  from run code_search_totalCount [OF run] show ?thesis
    by (rule conjI)
qed

text \<open>
  C1, on the code. The third replacement also rewrites the \<open>*\<close> of the \<open>.*\<close> that
  the second one has just produced, so \<open>**\<close> becomes \<open>.[^/]*\<close>: one character
  followed by characters other than the separator. The source built for \<open>**/*.ts\<close> is
  \<open>^.[^/]*/[^/]*\.ts$\<close>; it does not match \<open>src/a/b.ts\<close> (nor \<open>src/a/b.tsx\<close>), and
  a search with that glob drops a hit in \<open>src/a/b.ts\<close>. The source built for
  \<open>*.json\<close> matches \<open>package.json\<close> and not \<open>nested/package.json\<close>.
\<close>

theorem code_search_glob_double_star:
  "globRegexSource ''**/*.ts'' = ''^.[^/]*/[^/]*'' @ [backslash] @ ''.ts$'' \<and>
   jsRegExp (globRegexSource ''**/*.ts'') [] = Some (Inr (regexTest False (doubleStarTerms ''ts''))) \<and>
   \<not> regexTest False (doubleStarTerms ''ts'') ''src/a/b.ts'' \<and>
   \<not> regexTest False (doubleStarTerms ''ts'') ''src/a/b.tsx'' \<and>
   regexTest False (doubleStarTerms ''ts'') ''a/b.ts'' \<and>
   bitbucketCodeSearchTool (Inr ()) (exampleCodeFetch [''src/a/b.ts'', ''src/a/b.tsx''])
     fragmentEngine (exampleCodeArgs ''**/*.ts'') =
     [codeSearchProgress ''TODO'', Done \<lparr>cr_files = [], cr_totalCount = 0\<rparr>] \<and>
   jsRegExp (globRegexSource ''*.json'') [] = Some (Inr (regexTest False (singleStarTerms ''json''))) \<and>
   regexTest False (singleStarTerms ''json'') ''package.json'' \<and>
   \<not> regexTest False (singleStarTerms ''json'') ''nested/package.json''"
proof -
  have source: "globRegexSource ''**/*.ts'' = ''^.[^/]*/[^/]*'' @ [backslash] @ ''.ts$''"
    by (simp add: globRegexSource_def backslash_def)
  have compiled:
    "jsRegExp (globRegexSource ''**/*.ts'') [] = Some (Inr (regexTest False (doubleStarTerms ''ts'')))"
    by (simp add: jsRegExp_def globRegexSource_def parseAtom_def parseBracket_def
        syntaxChars_def backslash_def doubleStarTerms_def)
  have nested: "\<not> regexTest False (doubleStarTerms ''ts'') ''src/a/b.ts''"
    by (simp add: regexTest_def sameChar_def doubleStarTerms_def)
  have longer: "\<not> regexTest False (doubleStarTerms ''ts'') ''src/a/b.tsx''"
    by (simp add: regexTest_def sameChar_def doubleStarTerms_def)
  have one_level: "regexTest False (doubleStarTerms ''ts'') ''a/b.ts''"
    by (simp add: regexTest_def sameChar_def doubleStarTerms_def)
  have run: "bitbucketCodeSearchTool (Inr ()) (exampleCodeFetch [''src/a/b.ts'', ''src/a/b.tsx''])
     fragmentEngine (exampleCodeArgs ''**/*.ts'') =
     [codeSearchProgress ''TODO'', Done \<lparr>cr_files = [], cr_totalCount = 0\<rparr>]"
    using nested longer
    by (simp add: bitbucketCodeSearchTool_def Let_def exampleCodeFetch_def exampleCodeResponse_def
        exampleCodeArgs_def fragmentEngine_def compiled exampleHit_def)
  have json:
    "jsRegExp (globRegexSource ''*.json'') [] = Some (Inr (regexTest False (singleStarTerms ''json'')))"
    by (simp add: jsRegExp_def globRegexSource_def parseAtom_def parseBracket_def
        syntaxChars_def backslash_def singleStarTerms_def)
  have root: "regexTest False (singleStarTerms ''json'') ''package.json''"
    by (simp add: regexTest_def sameChar_def singleStarTerms_def)
  have below: "\<not> regexTest False (singleStarTerms ''json'') ''nested/package.json''"
    by (simp add: regexTest_def sameChar_def singleStarTerms_def)
  from source compiled nested longer one_level run json root below show ?thesis
    by blast
qed

subsection \<open>File Reader\<close>

lemma jsSlice_lines_length:
  assumes "1 \<le> s" and "0 \<le> e" and "e \<le> int (length xs)"
  shows "length (jsSlice xs (s - 1) e) = nat (e - s + 1)"
proof -
  from assms have final: "sliceIndex (length xs) e = nat e"
    by (auto simp: sliceIndex_def min_def)
  show ?thesis
  proof (cases "nat (s - 1) \<le> length xs")
    case True
    with assms have "sliceIndex (length xs) (s - 1) = nat (s - 1)"
      by (auto simp: sliceIndex_def min_def)
    moreover from assms True have "min (length xs - nat (s - 1)) (nat e - nat (s - 1)) = nat (e - s + 1)"
      by linarith
    ultimately show ?thesis
      by (simp add: jsSlice_def Let_def final)
  next
    case False
    with assms have "sliceIndex (length xs) (s - 1) = length xs"
      by (auto simp: sliceIndex_def min_def)
    moreover from assms False have "nat (e - s + 1) = 0"
      by linarith
    ultimately show ?thesis
      by (simp add: jsSlice_def Let_def final)
  qed
qed

lemma jsSlice_lines_nth:
  assumes "1 \<le> s" and "0 \<le> e" and "e \<le> int (length xs)" and "i < nat (e - s + 1)"
  shows "jsSlice xs (s - 1) e ! i = xs ! nat (s + int i - 1)"
proof -
  from assms have k: "sliceIndex (length xs) (s - 1) = nat (s - 1)"
    by (auto simp: sliceIndex_def min_def)
  from assms have final: "sliceIndex (length xs) e = nat e"
    by (auto simp: sliceIndex_def min_def)
  from assms have "i < nat e - nat (s - 1)"
    by linarith
  moreover from assms have "nat (s - 1) + i = nat (s + int i - 1)"
    by linarith
  ultimately show ?thesis
    using assms by (simp add: jsSlice_def Let_def k final)
qed

lemma numberedLines_upto:
  assumes "1 \<le> s" and "0 \<le> e" and "e \<le> int (length xs)"
  shows "map (\<lambda>(idx, line). showInt (s + int idx) @ '': '' @ line)
           (enumerate 0 (jsSlice xs (s - 1) e)) =
         map (\<lambda>n. showInt n @ '': '' @ xs ! nat (n - 1)) [s..e]"
proof (rule nth_equalityI)
  show "length (map (\<lambda>(idx, line). showInt (s + int idx) @ '': '' @ line)
                  (enumerate 0 (jsSlice xs (s - 1) e))) =
        length (map (\<lambda>n. showInt n @ '': '' @ xs ! nat (n - 1)) [s..e])"
    using assms by (simp add: jsSlice_lines_length)
next
  fix i
  assume "i < length (map (\<lambda>(idx, line). showInt (s + int idx) @ '': '' @ line)
                        (enumerate 0 (jsSlice xs (s - 1) e)))"
  then have i: "i < nat (e - s + 1)"
    using assms by (simp add: jsSlice_lines_length)
  then have "s + int i \<le> e"
    by linarith
  then have "[s..e] ! i = s + int i"
    by (rule nth_upto)
  then show "map (\<lambda>(idx, line). showInt (s + int idx) @ '': '' @ line)
               (enumerate 0 (jsSlice xs (s - 1) e)) ! i =
             map (\<lambda>n. showInt n @ '': '' @ xs ! nat (n - 1)) [s..e] ! i"
    using assms i by (simp add: jsSlice_lines_length nth_enumerate_eq jsSlice_lines_nth)
qed

lemma splitLines_nonempty: "splitLines content \<noteq> []"
  by (induction content) (auto split: list.splits)

text \<open>
  C9, as stated, fails on an inverted range and on a negative end. For the range
  \<open>[3, 1]\<close> on a file of three lines the clamped start is 3 and the clamped end is 1;
  nothing is emitted, and the number of lines is 0, not \<open>1 - 3 + 1\<close>. For the range
  \<open>[1, -1]\<close> the clamped end is \<open>-1\<close>, which \<open>slice\<close> reads as an index from the
  end of the array: lines 1 and 2 are emitted.
\<close>

theorem bitbucket_read_range_counterexample:
  "length (splitLines exampleFile) = 3 \<and>
   readStartLine (Some (3, 1)) = max 1 3 \<and>
   readEndLine (splitLines exampleFile) (Some (3, 1)) = min 3 1 \<and>
   numberedLines (splitLines exampleFile) (Some (3, 1)) = [] \<and>
   int (length (numberedLines (splitLines exampleFile) (Some (3, 1)))) \<noteq> min 3 1 - max 1 3 + 1 \<and>
   readEndLine (splitLines exampleFile) (Some (1, - 1)) = - 1 \<and>
   numberedLines (splitLines exampleFile) (Some (1, - 1)) = [''1: alpha'', ''2: beta'']"
  by (simp add: numberedLines_def exampleFile_def newline_def readStartLine_def readEndLine_def
      jsSlice_def sliceIndex_def enumerate_eq_zip showInt_def showNat.simps)

text \<open>
  C9, amended. For a successful read of a file of \<open>N\<close> lines with
  \<open>read_range = [a, b]\<close> and \<open>b \<ge> 0\<close>, the start is \<open>max 1 a\<close>, the end is
  \<open>min N b\<close>, and the content is the lines from start to end (none when start
  exceeds end), each prefixed with its 1-indexed line number and \<open>": "\<close>, joined by a
  newline; their number is \<open>end - start + 1\<close> when start does not exceed end, and 0
  otherwise. Without \<open>read_range\<close> the lines 1 to \<open>N\<close> are numbered.
\<close>

theorem bitbucket_read_numbered_lines:
  assumes "getLatest = Inr config"
    and "fetchFromBitbucketAPI
           (''rest/api/1.0/projects/'' @ rd_project args @ ''/repos/'' @ rd_repository args @
            ''/raw/'' @ normalizePath (rd_project args) (rd_repository args) (rd_path args) @
            ''?at=HEAD'') config = Inr response"
    and "ok response"
    and "lines = splitLines (case responseText response of None \<Rightarrow> [] | Some t \<Rightarrow> t)"
    and "case rd_read_range args of None \<Rightarrow> True | Some (a, b) \<Rightarrow> 0 \<le> b"
    and "startLine = (case rd_read_range args of None \<Rightarrow> 1 | Some (a, b) \<Rightarrow> max 1 a)"
    and "endLine = (case rd_read_range args of
                      None \<Rightarrow> int (length lines)
                    | Some (a, b) \<Rightarrow> min (int (length lines)) b)"
    and "selected = map (\<lambda>n. showInt n @ '': '' @ lines ! nat (n - 1)) [startLine..endLine]"
  shows "bitbucketReadTool getLatest fetchFromBitbucketAPI toFileURI args =
           [InProgress [''Reading file '' @ dquote @ rd_path args @ dquote @ '' from '' @
                        rd_project args @ ''/'' @ rd_repository args @ ''...''],
            Done \<lparr>rr_absolutePath =
                    toFileURI (''/'' @ rd_project args @ ''/'' @ rd_repository args @ ''/'' @
                               normalizePath (rd_project args) (rd_repository args) (rd_path args)),
                  rr_content = joinWith [newline] selected,
                  rr_contentURL = None\<rparr>] \<and>
         numberedLines lines (rd_read_range args) = selected \<and>
         int (length selected) = (if startLine \<le> endLine then endLine - startLine + 1 else 0)"
proof -
  have start: "1 \<le> startLine"
    using assms(6) by (auto split: option.splits)
  have "lines \<noteq> []"
    using assms(4) by (simp add: splitLines_nonempty)
  then have "0 \<le> endLine"
    using assms(5,7) by (auto split: option.splits)
  moreover have "endLine \<le> int (length lines)"
    using assms(7) by (auto split: option.splits)
  ultimately have "map (\<lambda>(idx, line). showInt (startLine + int idx) @ '': '' @ line)
           (enumerate 0 (jsSlice lines (startLine - 1) endLine)) = selected"
    unfolding assms(8) using start by (intro numberedLines_upto)
  moreover have "readStartLine (rd_read_range args) = startLine"
    and "readEndLine lines (rd_read_range args) = endLine"
    using assms(6,7) by (simp_all add: readStartLine_def readEndLine_def)
  ultimately have numbered: "numberedLines lines (rd_read_range args) = selected"
    by (simp add: numberedLines_def Let_def)
  have "int (length selected) = (if startLine \<le> endLine then endLine - startLine + 1 else 0)"
    using assms(8) by simp
  with numbered show ?thesis
    using assms(1-4) by (simp add: bitbucketReadTool_def Let_def)
qed

theorem bitbucket_read_numbered_lines_witness:
  "bitbucketReadTool (Inr ()) exampleReadFetch (\<lambda>path. ''file://'' @ path)
     (exampleReadArgs (Some (0, 2))) =
     [InProgress [''Reading file '' @ dquote @ ''file:///SRC/web/notes.txt'' @ dquote @
                  '' from SRC/web...''],
      Done \<lparr>rr_absolutePath = ''file:///SRC/web/notes.txt'',
            rr_content = ''1: alpha'' @ [newline] @ ''2: beta'',
            rr_contentURL = None\<rparr>] \<and>
   numberedLines (splitLines exampleFile) (Some (0, 2)) = [''1: alpha'', ''2: beta''] \<and>
   numberedLines (splitLines exampleFile) (Some (2, 9)) = [''2: beta'', ''3: gamma'']"
proof -
  have lines: "splitLines exampleFile = [''alpha'', ''beta'', ''gamma'']"
    by (simp add: exampleFile_def newline_def)
  have upto: "[1..2] = [1, 2::int]" "[2..3] = [2, 3::int]"
    by (simp_all add: upto.simps)
  have digits: "showInt 1 = ''1''" "showInt 2 = ''2''" "showInt 3 = ''3''"
    by (simp_all add: showInt_def showNat.simps)
  have path: "normalizePath ''SRC'' ''web'' ''file:///SRC/web/notes.txt'' = ''notes.txt''"
    by (simp add: normalizePath_def)
  have fetched: "exampleReadFetch p () =
      Inr \<lparr>ok = True, status = 200, statusText = ''OK'', data = None,
           responseText = Some exampleFile\<rparr>" for p
    by (simp add: exampleReadFetch_def)
  show ?thesis
    using
      bitbucket_read_numbered_lines
        [where getLatest = "Inr ()" and config = "()" and fetchFromBitbucketAPI = exampleReadFetch
           and args = "exampleReadArgs (Some (0, 2))" and toFileURI = "\<lambda>path. ''file://'' @ path",
         OF refl fetched _ refl _ refl refl refl]
      bitbucket_read_numbered_lines
        [where getLatest = "Inr ()" and config = "()" and fetchFromBitbucketAPI = exampleReadFetch
           and args = "exampleReadArgs (Some (2, 9))" and toFileURI = "\<lambda>path. ''file://'' @ path",
         OF refl fetched _ refl _ refl refl refl]
    by (simp add: exampleReadArgs_def lines upto digits path)
qed

subsection \<open>File-Tree Glob Matcher\<close>

text \<open>More fuel never changes the outcome of a traversal that returned.\<close>

lemma fetchDirectoryItems_mono_step:
  assumes dir: "\<And>path start allFiles r.
      fetchDirectory f browse path start allFiles = Some r \<Longrightarrow>
      fetchDirectory f' browse path start allFiles = Some r"
  shows "fetchDirectoryItems f browse items allFiles = Some r \<Longrightarrow>
         fetchDirectoryItems f' browse items allFiles = Some r"
proof (induction items arbitrary: allFiles)
  case Nil
  then show ?case by simp
next
  case (Cons item items)
  show ?case
  proof (cases "fi_type item")
    case FILE
    with Cons show ?thesis by simp
  next
    case DIRECTORY
    with Cons.prems obtain x where
      x: "fetchDirectory f browse (itemPath item) 0 allFiles = Some x"
      by (auto split: option.splits)
    note x' = dir [OF x]
    show ?thesis
    proof (cases x)
      case (Inl e)
      with Cons.prems DIRECTORY x x' show ?thesis by auto
    next
      case (Inr files)
      with Cons.prems DIRECTORY x have "fetchDirectoryItems f browse items files = Some r"
        by simp
      from Cons.IH [OF this] DIRECTORY x' Inr show ?thesis by auto
    qed
  qed
qed

lemma fetchDirectory_mono:
  "fetchDirectory f browse path start allFiles = Some r \<Longrightarrow> f \<le> f' \<Longrightarrow>
   fetchDirectory f' browse path start allFiles = Some r"
proof (induction f arbitrary: f' path start allFiles r)
  case 0
  then show ?case by simp
next
  case (Suc f)
  from Suc.prems(2) obtain g where g: "f' = Suc g" "f \<le> g"
    by (cases f') auto
  have dir: "fetchDirectory f browse p s a = Some x \<Longrightarrow> fetchDirectory g browse p s a = Some x"
    for p s a x
    using Suc.IH g(2) by blast
  have items: "fetchDirectoryItems f browse its a = Some x \<Longrightarrow>
               fetchDirectoryItems g browse its a = Some x" for its a x
    using dir by (rule fetchDirectoryItems_mono_step)
  show ?case
  proof (cases "browse path start")
    case (Inl e)
    with Suc.prems(1) g show ?thesis by simp
  next
    case (Inr response)
    show ?thesis
    proof (cases "ok response \<and> data response \<noteq> None")
      case False
      with Suc.prems(1) g Inr show ?thesis by (auto split: if_splits option.splits)
    next
      case True
      then obtain d where d: "ok response" "data response = Some d" by auto
      with Suc.prems(1) Inr obtain x where
        x: "fetchDirectoryItems f browse (bc_values (br_children d)) allFiles = Some x"
        by (auto split: option.splits)
      note x' = items [OF x]
      show ?thesis
      proof (cases x)
        case (Inl e)
        with Suc.prems(1) g Inr d x x' show ?thesis by auto
      next
        case files: (Inr files)
        show ?thesis
        proof (cases "bc_isLastPage (br_children d)")
          case True
          with Suc.prems(1) g Inr d x x' files show ?thesis by auto
        next
          case False
          with Suc.prems(1) Inr d x files have
            "fetchDirectory f browse path (nextStart start (br_children d)) files = Some r"
            by simp
          from dir [OF this] g Inr d x' files False show ?thesis by auto
        qed
      qed
    qed
  qed
qed

lemma fetchDirectoryItems_mono:
  "fetchDirectoryItems f browse items allFiles = Some r \<Longrightarrow> f \<le> f' \<Longrightarrow>
   fetchDirectoryItems f' browse items allFiles = Some r"
  using fetchDirectory_mono fetchDirectoryItems_mono_step by blast

lemma fetchDirectory_fuel_independent:
  assumes "fetchDirectory f browse path start allFiles = Some r"
    and "fetchDirectory f' browse path start allFiles = Some r'"
  shows "r = r'"
proof -
  from assms(1) have "fetchDirectory (max f f') browse path start allFiles = Some r"
    by (rule fetchDirectory_mono) simp
  moreover from assms(2) have "fetchDirectory (max f f') browse path start allFiles = Some r'"
    by (rule fetchDirectory_mono) simp
  ultimately show ?thesis by simp
qed

text \<open>
  Termination: by induction on the depth of the directory, and inside it on the
  distance of the cursor from the bound of the directory.
\<close>

lemma fetchDirectoryItems_terminates:
  assumes "\<And>item allFiles. item \<in> set items \<Longrightarrow> fi_type item = DIRECTORY \<Longrightarrow>
      \<exists>fuel r. fetchDirectory fuel browse (itemPath item) 0 allFiles = Some r"
  shows "\<exists>fuel r. fetchDirectoryItems fuel browse items allFiles = Some r"
  using assms
proof (induction items arbitrary: allFiles)
  case Nil
  show ?case by simp
next
  case (Cons item items)
  have rest: "\<exists>fuel r. fetchDirectoryItems fuel browse items a = Some r" for a
    using Cons.IH Cons.prems by simp
  show ?case
  proof (cases "fi_type item")
    case FILE
    from rest [of "allFiles @ [itemPath item]"] FILE show ?thesis by simp
  next
    case DIRECTORY
    with Cons.prems obtain f1 r1 where
      f1: "fetchDirectory f1 browse (itemPath item) 0 allFiles = Some r1"
      by (meson list.set_intros(1))
    show ?thesis
    proof (cases r1)
      case (Inl e)
      with f1 DIRECTORY have "fetchDirectoryItems f1 browse (item # items) allFiles = Some (Inl e)"
        by auto
      then show ?thesis by blast
    next
      case (Inr files)
      from rest [of files] obtain f2 r2 where
        f2: "fetchDirectoryItems f2 browse items files = Some r2"
        by blast
      from f1 have "fetchDirectory (max f1 f2) browse (itemPath item) 0 allFiles = Some r1"
        by (rule fetchDirectory_mono) simp
      moreover from f2 have "fetchDirectoryItems (max f1 f2) browse items files = Some r2"
        by (rule fetchDirectoryItems_mono) simp
      ultimately have "fetchDirectoryItems (max f1 f2) browse (item # items) allFiles = Some r2"
        using DIRECTORY Inr by auto
      then show ?thesis by blast
    qed
  qed
qed

lemma fetchDirectory_terminates:
  fixes depth :: "string \<Rightarrow> nat" and bound :: "string \<Rightarrow> int"
  assumes advance: "\<And>path start response d.
      browse path start = Inr response \<Longrightarrow> ok response \<Longrightarrow> data response = Some d \<Longrightarrow>
      \<not> bc_isLastPage (br_children d) \<Longrightarrow>
      \<exists>n. bc_nextPageStart (br_children d) = Some n \<and> start < n"
    and finite: "\<And>path start response d.
      browse path start = Inr response \<Longrightarrow> ok response \<Longrightarrow> data response = Some d \<Longrightarrow>
      bound path \<le> start \<Longrightarrow> bc_isLastPage (br_children d)"
    and acyclic: "\<And>path start response d item.
      browse path start = Inr response \<Longrightarrow> ok response \<Longrightarrow> data response = Some d \<Longrightarrow>
      item \<in> set (bc_values (br_children d)) \<Longrightarrow> fi_type item = DIRECTORY \<Longrightarrow>
      depth (itemPath item) < depth path"
  shows "0 \<le> start \<Longrightarrow> \<exists>fuel r. fetchDirectory fuel browse path start allFiles = Some r"
proof (induction "depth path" arbitrary: path start allFiles rule: less_induct)
  case less
  note outer = less.hyps
  from less.prems show ?case
  proof (induction "nat (bound path - start)" arbitrary: start allFiles rule: less_induct)
    case less
    note inner = less.hyps
    note start = less.prems
    show ?case
    proof (cases "browse path start")
      case (Inl e)
      then have "fetchDirectory (Suc 0) browse path start allFiles = Some (Inl e)"
        by simp
      then show ?thesis by blast
    next
      case (Inr response)
      show ?thesis
      proof (cases "ok response \<and> data response \<noteq> None")
        case False
        with Inr have "fetchDirectory (Suc 0) browse path start allFiles = Some (Inr allFiles)"
          by (auto split: option.splits)
        then show ?thesis by blast
      next
        case True
        then obtain d where d: "ok response" "data response = Some d" by auto
        have "\<exists>fuel r. fetchDirectoryItems fuel browse (bc_values (br_children d)) allFiles = Some r"
        proof (rule fetchDirectoryItems_terminates)
          fix item a
          assume "item \<in> set (bc_values (br_children d))" and "fi_type item = DIRECTORY"
          with acyclic [OF Inr d] have "depth (itemPath item) < depth path"
            by blast
          then show "\<exists>fuel r. fetchDirectory fuel browse (itemPath item) 0 a = Some r"
            by (rule outer) simp
        qed
        then obtain f1 r1 where
          f1: "fetchDirectoryItems f1 browse (bc_values (br_children d)) allFiles = Some r1"
          by blast
        show ?thesis
        proof (cases r1)
          case (Inl e)
          with Inr d f1 have "fetchDirectory (Suc f1) browse path start allFiles = Some (Inl e)"
            by auto
          then show ?thesis by blast
        next
          case files: (Inr files)
          show ?thesis
          proof (cases "bc_isLastPage (br_children d)")
            case True
            with Inr d f1 files have
              "fetchDirectory (Suc f1) browse path start allFiles = Some (Inr files)"
              by auto
            then show ?thesis by blast
          next
            case False
            from advance [OF Inr d False] obtain n where
              n: "bc_nextPageStart (br_children d) = Some n" "start < n"
              by blast
            with start have next_cursor: "nextStart start (br_children d) = n"
              by (simp add: nextStart_def)
            from finite [OF Inr d] False have "start < bound path"
              by force
            with n(2) have "nat (bound path - n) < nat (bound path - start)"
              by linarith
            moreover from start n(2) have "0 \<le> n"
              by simp
            ultimately obtain f2 r2 where
              f2: "fetchDirectory f2 browse path n files = Some r2"
              using inner by blast
            from f1 have
              "fetchDirectoryItems (max f1 f2) browse (bc_values (br_children d)) allFiles = Some r1"
              by (rule fetchDirectoryItems_mono) simp
            moreover from f2 have "fetchDirectory (max f1 f2) browse path n files = Some r2"
              by (rule fetchDirectory_mono) simp
            ultimately have
              "fetchDirectory (Suc (max f1 f2)) browse path start allFiles = Some r2"
              using Inr d files False next_cursor by auto
            then show ?thesis by blast
          qed
        qed
      qed
    qed
  qed
qed

text \<open>A traversal that leaves with an exception saw a rejected fetch.\<close>

lemma fetchDirectory_rejected:
  "(\<forall>path start a. fetchDirectory fuel browse path start a = Some (Inl e) \<longrightarrow>
      (\<exists>p s. browse p s = Inl e)) \<and>
   (\<forall>items a. fetchDirectoryItems fuel browse items a = Some (Inl e) \<longrightarrow>
      (\<exists>p s. browse p s = Inl e))"
proof (induction fuel)
  case 0
  have "fetchDirectoryItems 0 browse items a \<noteq> Some (Inl e)" for items a
    by (induction items arbitrary: a) (auto split: ItemType.splits)
  then show ?case by simp
next
  case (Suc fuel)
  then have below: "fetchDirectory fuel browse p s a = Some (Inl e) \<Longrightarrow> \<exists>p s. browse p s = Inl e"
    and below_items: "fetchDirectoryItems fuel browse items a = Some (Inl e) \<Longrightarrow>
      \<exists>p s. browse p s = Inl e" for p s a items
    by blast+
  have dir: "\<exists>p s. browse p s = Inl e"
    if run: "fetchDirectory (Suc fuel) browse p s a = Some (Inl e)" for p s a
  proof (cases "browse p s")
    case (Inl x)
    with run show ?thesis by auto
  next
    case (Inr response)
    show ?thesis
    proof (cases "ok response \<and> data response \<noteq> None")
      case False
      with run Inr show ?thesis by (auto split: option.splits)
    next
      case True
      then obtain d where d: "ok response" "data response = Some d" by auto
      show ?thesis
      proof (cases "fetchDirectoryItems fuel browse (bc_values (br_children d)) a")
        case None
        with run Inr d show ?thesis by simp
      next
        case (Some x)
        show ?thesis
        proof (cases x)
          case (Inl e')
          with run Inr d Some have "fetchDirectoryItems fuel browse (bc_values (br_children d)) a = Some (Inl e)"
            by simp
          then show ?thesis by (rule below_items)
        next
          case files: (Inr files)
          with run Inr d Some have
            "fetchDirectory fuel browse p (nextStart s (br_children d)) files = Some (Inl e)"
            by (simp split: if_splits)
          then show ?thesis by (rule below)
        qed
      qed
    qed
  qed
  have "fetchDirectoryItems (Suc fuel) browse items a = Some (Inl e) \<Longrightarrow>
        \<exists>p s. browse p s = Inl e" for items a
  proof (induction items arbitrary: a)
    case Nil
    then show ?case by simp
  next
    case (Cons item items)
    show ?case
    proof (cases "fi_type item")
      case FILE
      with Cons.prems have
        "fetchDirectoryItems (Suc fuel) browse items (a @ [itemPath item]) = Some (Inl e)"
        by simp
      then show ?thesis by (rule Cons.IH)
    next
      case DIRECTORY
      show ?thesis
      proof (cases "fetchDirectory (Suc fuel) browse (itemPath item) 0 a")
        case None
        with Cons.prems DIRECTORY show ?thesis by simp
      next
        case (Some x)
        show ?thesis
        proof (cases x)
          case (Inl e')
          with Cons.prems DIRECTORY Some have
            "fetchDirectory (Suc fuel) browse (itemPath item) 0 a = Some (Inl e)"
            by simp
          then show ?thesis by (rule dir)
        next
          case (Inr files)
          with Cons.prems DIRECTORY Some have
            "fetchDirectoryItems (Suc fuel) browse items files = Some (Inl e)"
            by simp
          then show ?thesis by (rule Cons.IH)
        qed
      qed
    qed
  qed
  with dir show ?case by blast
qed

text \<open>The loop over the entries of a page, on a concatenation.\<close>

lemma fetchDirectoryItems_append:
  "fetchDirectoryItems fuel browse (before @ after) allFiles =
     (case fetchDirectoryItems fuel browse before allFiles of
        None \<Rightarrow> None
      | Some (Inl e) \<Rightarrow> Some (Inl e)
      | Some (Inr files) \<Rightarrow> fetchDirectoryItems fuel browse after files)"
proof (induction before arbitrary: allFiles)
  case Nil
  show ?case by simp
next
  case (Cons item before)
  show ?case
  proof (cases "fi_type item")
    case FILE
    with Cons show ?thesis by simp
  next
    case DIRECTORY
    with Cons show ?thesis
      by (simp split: option.splits sum.splits)
  qed
qed

lemma fetchDirectory_failed_page:
  assumes "browse path start = Inr response" and "\<not> ok response \<or> data response = None"
  shows "fetchDirectory (Suc fuel) browse path start allFiles = Some (Inr allFiles)"
  using assms by auto

lemma fetchDirectoryItems_skip:
  assumes "fi_type item = DIRECTORY" and "browse (itemPath item) 0 = Inr response"
    and "\<not> ok response \<or> data response = None"
  shows "fetchDirectoryItems (Suc fuel) browse (before @ item # after) allFiles =
         fetchDirectoryItems (Suc fuel) browse (before @ after) allFiles"
proof -
  have skip: "fetchDirectoryItems (Suc fuel) browse (item # after) files =
        fetchDirectoryItems (Suc fuel) browse after files" for files
    using assms(1)
      fetchDirectory_failed_page
        [where browse = browse and path = "itemPath item" and start = 0 and response = response
           and fuel = fuel and allFiles = files]
      assms(2,3)
    by simp
  show ?thesis
    unfolding fetchDirectoryItems_append [where before = before] skip ..
qed

lemma bitbucketGlobTool_success:
  assumes "getLatest = Inr config"
    and "fetchAllFiles fuel fetchFromBitbucketAPI (gl_project args) (gl_repository args) config =
           Some (Inr filePaths)"
    and "picomatch (gl_filePattern args) = Inr isMatch"
  shows "bitbucketGlobTool fuel getLatest fetchFromBitbucketAPI picomatch toFileURI args =
           Some [globProgress args,
                 Done (globFiles toFileURI isMatch (gl_project args) (gl_repository args)
                         (case gl_limit args of None \<Rightarrow> 100 | Some l \<Rightarrow> l)
                         (case gl_offset args of None \<Rightarrow> 0 | Some off \<Rightarrow> off) filePaths)]"
  using assms by (simp add: bitbucketGlobTool_def Let_def)

lemma bitbucketGlobTool_done:
  assumes "bitbucketGlobTool fuel getLatest fetchFromBitbucketAPI picomatch toFileURI args =
             Some [progress, Done files]"
  shows "\<exists>config filePaths isMatch.
           getLatest = Inr config \<and>
           fetchAllFiles fuel fetchFromBitbucketAPI (gl_project args) (gl_repository args) config =
             Some (Inr filePaths) \<and>
           picomatch (gl_filePattern args) = Inr isMatch \<and>
           progress = globProgress args \<and>
           files = globFiles toFileURI isMatch (gl_project args) (gl_repository args)
                     (case gl_limit args of None \<Rightarrow> 100 | Some l \<Rightarrow> l)
                     (case gl_offset args of None \<Rightarrow> 0 | Some off \<Rightarrow> off) filePaths"
  using assms
  by (auto simp: bitbucketGlobTool_def Let_def split: sum.splits option.splits)

lemma jsSlice_window:
  assumes "0 \<le> k" and "0 < n"
  shows "jsSlice xs k (k + n) = take (nat n) (drop (nat k) xs)"
proof (cases "nat k \<le> length xs")
  case True
  with assms have k: "sliceIndex (length xs) k = nat k"
    by (simp add: sliceIndex_def)
  show ?thesis
  proof (cases "nat (k + n) \<le> length xs")
    case True
    with assms have "sliceIndex (length xs) (k + n) = nat (k + n)"
      by (simp add: sliceIndex_def)
    moreover from assms have "nat (k + n) - nat k = nat n"
      by linarith
    ultimately show ?thesis
      by (simp add: jsSlice_def Let_def k)
  next
    case False
    with assms have "sliceIndex (length xs) (k + n) = length xs"
      by (simp add: sliceIndex_def)
    moreover from assms False have "length xs - nat k \<le> nat n"
      by linarith
    ultimately show ?thesis
      by (simp add: jsSlice_def Let_def k)
  qed
next
  case False
  with assms have "sliceIndex (length xs) k = length xs"
    by (simp add: sliceIndex_def)
  with False show ?thesis
    by (simp add: jsSlice_def Let_def)
qed

lemma jsSlice_prefix:
  assumes "0 < m"
  shows "jsSlice xs 0 m = take (nat m) xs"
  using jsSlice_window [of 0 m xs] assms by simp

lemma jsSliceFrom_drop:
  assumes "0 \<le> k"
  shows "jsSliceFrom xs k = drop (nat k) xs"
  using assms by (cases "nat k \<le> length xs") (simp_all add: jsSliceFrom_def sliceIndex_def)

lemma globFiles_window:
  assumes "0 \<le> k" and "0 < n"
  shows "globFiles toFileURI isMatch project repository n k filePaths =
         take (nat n) (drop (nat k)
           (globFiles toFileURI isMatch project repository (k + n) 0 filePaths))"
proof -
  from assms have "nat (k + n) = nat k + nat n"
    by linarith
  then have "take (nat n) (drop (nat k) (take (nat (k + n)) xs)) = take (nat n) (drop (nat k) xs)"
    for xs :: "string list"
    by (simp add: drop_take)
  with assms show ?thesis
    by (simp add: globFiles_def paginate_def jsSlice_window jsSlice_prefix take_map drop_map)
qed

lemma globFiles_unlimited:
  assumes "0 \<le> k"
  shows "globFiles toFileURI isMatch project repository 0 k filePaths =
         drop (nat k) (globFiles toFileURI isMatch project repository 0 0 filePaths)"
  using assms by (simp add: globFiles_def paginate_def jsSliceFrom_drop drop_map)

text \<open>The traversal of the example repository.\<close>

lemma exampleTraversal:
  "fetchDirectory 2 exampleBrowse [] 0 [] = Some (Inr [''a.ts'', ''dir/c.ts'', ''b.js''])"
  by (simp add: numeral_2_eq_2 exampleBrowse_def exampleListing_def exampleItem_def
      exampleForbidden_def itemPath_def nextStart_def)

lemma exampleAllFiles:
  "fetchAllFiles 2 exampleGlobFetch ''SRC'' ''web'' () =
     Some (Inr [''a.ts'', ''dir/c.ts'', ''b.js''])"
  by (simp add: fetchAllFiles_def numeral_2_eq_2 exampleGlobFetch_def browseApiPath_def
      showInt_def showNat.simps exampleBrowse_def exampleListing_def exampleItem_def
      exampleForbidden_def itemPath_def nextStart_def)

text \<open>
  C2. Let every page that was fetched successfully and is not the last report a
  \<open>nextPageStart\<close> greater than the cursor it was requested with; let the tree be
  finite and acyclic: every directory has a cursor bound from which on its pages are
  the last, and a depth that is greater than the depth of each directory listed in it.
  Then the traversal from the root returns with some amount of fuel, and more fuel
  gives the same result; the result is a list of files unless a fetch was rejected.
  The paging loop leaves at a rejected or failed fetch, returns after the items of a
  last page, and otherwise continues at the reported \<open>nextPageStart\<close>.
\<close>

theorem glob_traversal_terminates:
  fixes depth :: "string \<Rightarrow> nat" and bound :: "string \<Rightarrow> int"
  assumes advance: "\<And>path start response d.
      browse path start = Inr response \<Longrightarrow> ok response \<Longrightarrow> data response = Some d \<Longrightarrow>
      \<not> bc_isLastPage (br_children d) \<Longrightarrow>
      \<exists>n. bc_nextPageStart (br_children d) = Some n \<and> start < n"
    and finite: "\<And>path start response d.
      browse path start = Inr response \<Longrightarrow> ok response \<Longrightarrow> data response = Some d \<Longrightarrow>
      bound path \<le> start \<Longrightarrow> bc_isLastPage (br_children d)"
    and acyclic: "\<And>path start response d item.
      browse path start = Inr response \<Longrightarrow> ok response \<Longrightarrow> data response = Some d \<Longrightarrow>
      item \<in> set (bc_values (br_children d)) \<Longrightarrow> fi_type item = DIRECTORY \<Longrightarrow>
      depth (itemPath item) < depth path"
  shows "(\<exists>fuel r. fetchDirectory fuel browse [] 0 [] = Some r \<and>
            (\<forall>more. fetchDirectory (fuel + more) browse [] 0 [] = Some r) \<and>
            ((\<forall>p s e. browse p s \<noteq> Inl e) \<longrightarrow> (\<exists>files. r = Inr files))) \<and>
         (\<forall>fetchFromBitbucketAPI config.
            browse = (\<lambda>path start. fetchFromBitbucketAPI
                        (browseApiPath (gl_project args) (gl_repository args) path start) config) \<longrightarrow>
            (\<exists>fuel run. bitbucketGlobTool fuel (Inr config) fetchFromBitbucketAPI picomatch
                            toFileURI args = Some run)) \<and>
         (\<forall>e. browse path start = Inl e \<longrightarrow>
            fetchDirectory (Suc fuel) browse path start allFiles = Some (Inl e)) \<and>
         (\<forall>response. browse path start = Inr response \<and> (\<not> ok response \<or> data response = None) \<longrightarrow>
            fetchDirectory (Suc fuel) browse path start allFiles = Some (Inr allFiles)) \<and>
         (\<forall>response d. browse path start = Inr response \<and> ok response \<and> data response = Some d \<and>
            bc_isLastPage (br_children d) \<longrightarrow>
            fetchDirectory (Suc fuel) browse path start allFiles =
              fetchDirectoryItems fuel browse (bc_values (br_children d)) allFiles) \<and>
         (\<forall>response d. 0 \<le> start \<and> browse path start = Inr response \<and> ok response \<and>
            data response = Some d \<and> \<not> bc_isLastPage (br_children d) \<longrightarrow>
            (\<exists>n. bc_nextPageStart (br_children d) = Some n \<and> start < n \<and>
               fetchDirectory (Suc fuel) browse path start allFiles =
                 (case fetchDirectoryItems fuel browse (bc_values (br_children d)) allFiles of
                    None \<Rightarrow> None
                  | Some (Inl e) \<Rightarrow> Some (Inl e)
                  | Some (Inr files) \<Rightarrow> fetchDirectory fuel browse path n files)))"
proof -
  have "\<exists>fuel r. fetchDirectory fuel browse [] 0 [] = Some r"
  proof (rule fetchDirectory_terminates [where depth = depth and bound = bound])
    show "\<exists>n. bc_nextPageStart (br_children d) = Some n \<and> start < n"
      if "browse path start = Inr response" "ok response" "data response = Some d"
        "\<not> bc_isLastPage (br_children d)" for path start response d
      using that by (rule advance)
    show "bc_isLastPage (br_children d)"
      if "browse path start = Inr response" "ok response" "data response = Some d"
        "bound path \<le> start" for path start response d
      using that by (rule finite)
    show "depth (itemPath item) < depth path"
      if "browse path start = Inr response" "ok response" "data response = Some d"
        "item \<in> set (bc_values (br_children d))" "fi_type item = DIRECTORY"
      for path start response d item
      using that by (rule acyclic)
    show "(0::int) \<le> 0"
      by simp
  qed
  then obtain f r where run: "fetchDirectory f browse [] 0 [] = Some r"
    by blast
  have "fetchDirectory (f + more) browse [] 0 [] = Some r" for more
    using run by (rule fetchDirectory_mono) simp
  moreover have "\<exists>files. r = Inr files" if "\<forall>p s e. browse p s \<noteq> Inl e"
  proof (cases r)
    case (Inl e)
    with run fetchDirectory_rejected [of f browse e] that show ?thesis by blast
  next
    case (Inr files)
    then show ?thesis by blast
  qed
  ultimately have returns: "\<exists>fuel r. fetchDirectory fuel browse [] 0 [] = Some r \<and>
      (\<forall>more. fetchDirectory (fuel + more) browse [] 0 [] = Some r) \<and>
      ((\<forall>p s e. browse p s \<noteq> Inl e) \<longrightarrow> (\<exists>files. r = Inr files))"
    using run by blast
  have tool: "\<forall>fetchFromBitbucketAPI config.
      browse = (\<lambda>path start. fetchFromBitbucketAPI
                  (browseApiPath (gl_project args) (gl_repository args) path start) config) \<longrightarrow>
      (\<exists>fuel run. bitbucketGlobTool fuel (Inr config) fetchFromBitbucketAPI picomatch
                      toFileURI args = Some run)"
  proof (intro allI impI)
    fix fetchFromBitbucketAPI :: "string \<Rightarrow> 'c \<Rightarrow> string + BitbucketBrowseResponse BitbucketAPIResponse"
      and config
    assume "browse = (\<lambda>path start. fetchFromBitbucketAPI
                  (browseApiPath (gl_project args) (gl_repository args) path start) config)"
    with run have "fetchAllFiles f fetchFromBitbucketAPI (gl_project args) (gl_repository args) config =
        Some r"
      by (simp add: fetchAllFiles_def)
    then have "\<exists>run. bitbucketGlobTool f (Inr config) fetchFromBitbucketAPI picomatch
                      toFileURI args = Some run"
      by (simp add: bitbucketGlobTool_def Let_def split: sum.splits)
    then show "\<exists>fuel run. bitbucketGlobTool fuel (Inr config) fetchFromBitbucketAPI picomatch
                      toFileURI args = Some run"
      by blast
  qed
  have rejected: "\<forall>e. browse path start = Inl e \<longrightarrow>
      fetchDirectory (Suc fuel) browse path start allFiles = Some (Inl e)"
    by simp
  have failed: "\<forall>response. browse path start = Inr response \<and>
        (\<not> ok response \<or> data response = None) \<longrightarrow>
      fetchDirectory (Suc fuel) browse path start allFiles = Some (Inr allFiles)"
    by auto
  have last: "\<forall>response d. browse path start = Inr response \<and> ok response \<and>
        data response = Some d \<and> bc_isLastPage (br_children d) \<longrightarrow>
      fetchDirectory (Suc fuel) browse path start allFiles =
        fetchDirectoryItems fuel browse (bc_values (br_children d)) allFiles"
    by (auto split: option.splits sum.splits)
  have continues: "\<forall>response d. 0 \<le> start \<and> browse path start = Inr response \<and> ok response \<and>
        data response = Some d \<and> \<not> bc_isLastPage (br_children d) \<longrightarrow>
      (\<exists>n. bc_nextPageStart (br_children d) = Some n \<and> start < n \<and>
         fetchDirectory (Suc fuel) browse path start allFiles =
           (case fetchDirectoryItems fuel browse (bc_values (br_children d)) allFiles of
              None \<Rightarrow> None
            | Some (Inl e) \<Rightarrow> Some (Inl e)
            | Some (Inr files) \<Rightarrow> fetchDirectory fuel browse path n files))"
  proof (intro allI impI)
    fix response d
    assume page: "0 \<le> start \<and> browse path start = Inr response \<and> ok response \<and>
        data response = Some d \<and> \<not> bc_isLastPage (br_children d)"
    with advance [of path start response d] obtain n where
      n: "bc_nextPageStart (br_children d) = Some n" "start < n"
      by blast
    with page have "nextStart start (br_children d) = n"
      by (simp add: nextStart_def)
    with page n show "\<exists>n. bc_nextPageStart (br_children d) = Some n \<and> start < n \<and>
         fetchDirectory (Suc fuel) browse path start allFiles =
           (case fetchDirectoryItems fuel browse (bc_values (br_children d)) allFiles of
              None \<Rightarrow> None
            | Some (Inl e) \<Rightarrow> Some (Inl e)
            | Some (Inr files) \<Rightarrow> fetchDirectory fuel browse path n files)"
      by (auto split: option.splits sum.splits)
  qed
  from returns tool rejected failed last continues show ?thesis
    by (intro conjI)
qed

theorem glob_traversal_terminates_witness:
  "(\<exists>fuel files. fetchDirectory fuel exampleBrowse [] 0 [] = Some (Inr files) \<and>
      (\<forall>more. fetchDirectory (fuel + more) exampleBrowse [] 0 [] = Some (Inr files))) \<and>
   fetchDirectory 2 exampleBrowse [] 0 [] = Some (Inr [''a.ts'', ''dir/c.ts'', ''b.js''])"
proof -
  have never_rejected: "\<forall>p s e. exampleBrowse p s \<noteq> Inl e"
    by (simp add: exampleBrowse_def)
  have "\<exists>fuel r. fetchDirectory fuel exampleBrowse [] 0 [] = Some r \<and>
      (\<forall>more. fetchDirectory (fuel + more) exampleBrowse [] 0 [] = Some r) \<and>
      ((\<forall>p s e. exampleBrowse p s \<noteq> Inl e) \<longrightarrow> (\<exists>files. r = Inr files))"
  proof (rule conjunct1,
      rule glob_traversal_terminates
        [where browse = exampleBrowse and bound = "\<lambda>p. 1"
           and depth = "\<lambda>p. if p = [] then 1 else 0"])
    show "\<exists>n. bc_nextPageStart (br_children d) = Some n \<and> start < n"
      if "exampleBrowse path start = Inr response" "ok response" "data response = Some d"
        "\<not> bc_isLastPage (br_children d)" for path start response d
      using that
      by (auto simp: exampleBrowse_def exampleListing_def exampleForbidden_def split: if_splits)
    show "bc_isLastPage (br_children d)"
      if "exampleBrowse path start = Inr response" "ok response" "data response = Some d"
        "1 \<le> start" for path start response d
      using that
      by (auto simp: exampleBrowse_def exampleListing_def exampleForbidden_def split: if_splits)
    show "(if itemPath item = [] then 1 else (0::nat)) < (if path = [] then 1 else 0)"
      if "exampleBrowse path start = Inr response" "ok response" "data response = Some d"
        "item \<in> set (bc_values (br_children d))" "fi_type item = DIRECTORY"
      for path start response d item
      using that
      by (auto simp: exampleBrowse_def exampleListing_def exampleForbidden_def exampleItem_def
          itemPath_def split: if_splits)
  qed
  with never_rejected
  have "\<exists>fuel files. fetchDirectory fuel exampleBrowse [] 0 [] = Some (Inr files) \<and>
      (\<forall>more. fetchDirectory (fuel + more) exampleBrowse [] 0 [] = Some (Inr files))"
    by blast
  with exampleTraversal show ?thesis
    by blast
qed

lemma paginate_Nil: "paginate limit offset [] = []"
  by (simp add: paginate_def jsSlice_def jsSliceFrom_def)

text \<open>
  C3. A page fetch that resolves with a response that is not ok or has no data makes
  \<open>fetchDirectory\<close> return normally with the files accumulated so far. A directory
  entry whose first page fails that way is passed over: the loop over the entries gives
  what it gives without the entry, so that the siblings are traversed and the files of
  the other branches are kept. Whenever the traversal returns normally and the glob
  compiles, the run is the progress event followed by one done event, with no error
  event; a pattern that matches none of the files gives a done event with the empty
  list, and so does a repository whose root listing is empty or refused.
\<close>

theorem glob_failed_page_skips_branch:
  "(\<forall>response. browse path start = Inr response \<and> (\<not> ok response \<or> data response = None) \<longrightarrow>
      fetchDirectory (Suc fuel) browse path start allFiles = Some (Inr allFiles)) \<and>
   (\<forall>item response. fi_type item = DIRECTORY \<and> browse (itemPath item) 0 = Inr response \<and>
        (\<not> ok response \<or> data response = None) \<longrightarrow>
      fetchDirectoryItems (Suc fuel) browse (before @ item # after) allFiles =
      fetchDirectoryItems (Suc fuel) browse (before @ after) allFiles) \<and>
   (\<forall>config filePaths isMatch.
      getLatest = Inr config \<and>
      fetchAllFiles fuel fetchFromBitbucketAPI (gl_project args) (gl_repository args) config =
        Some (Inr filePaths) \<and>
      picomatch (gl_filePattern args) = Inr isMatch \<longrightarrow>
      (\<exists>files. bitbucketGlobTool fuel getLatest fetchFromBitbucketAPI picomatch toFileURI args =
                  Some [globProgress args, Done files] \<and>
               files = map (\<lambda>path. toFileURI (''/'' @ gl_project args @ ''/'' @
                                              gl_repository args @ ''/'' @ path))
                         (paginate (case gl_limit args of None \<Rightarrow> 100 | Some l \<Rightarrow> l)
                                   (case gl_offset args of None \<Rightarrow> 0 | Some off \<Rightarrow> off)
                                   (filter isMatch filePaths)) \<and>
               (filter isMatch filePaths = [] \<longrightarrow> files = []))) \<and>
   (\<forall>config response isMatch.
      getLatest = Inr config \<and>
      fetchFromBitbucketAPI (browseApiPath (gl_project args) (gl_repository args) [] 0) config =
        Inr response \<and>
      (\<not> ok response \<or> data response = None \<or>
       (\<exists>d. data response = Some d \<and> bc_values (br_children d) = [] \<and>
            bc_isLastPage (br_children d))) \<and>
      picomatch (gl_filePattern args) = Inr isMatch \<longrightarrow>
      bitbucketGlobTool (Suc fuel) getLatest fetchFromBitbucketAPI picomatch toFileURI args =
        Some [globProgress args, Done []])"
proof -
  have failed: "\<forall>response. browse path start = Inr response \<and>
        (\<not> ok response \<or> data response = None) \<longrightarrow>
      fetchDirectory (Suc fuel) browse path start allFiles = Some (Inr allFiles)"
    by auto
  have skipped: "\<forall>item response. fi_type item = DIRECTORY \<and>
        browse (itemPath item) 0 = Inr response \<and> (\<not> ok response \<or> data response = None) \<longrightarrow>
      fetchDirectoryItems (Suc fuel) browse (before @ item # after) allFiles =
      fetchDirectoryItems (Suc fuel) browse (before @ after) allFiles"
    using fetchDirectoryItems_skip by blast
  have tool: "\<forall>config filePaths isMatch.
      getLatest = Inr config \<and>
      fetchAllFiles fuel fetchFromBitbucketAPI (gl_project args) (gl_repository args) config =
        Some (Inr filePaths) \<and>
      picomatch (gl_filePattern args) = Inr isMatch \<longrightarrow>
      (\<exists>files. bitbucketGlobTool fuel getLatest fetchFromBitbucketAPI picomatch toFileURI args =
                  Some [globProgress args, Done files] \<and>
               files = map (\<lambda>path. toFileURI (''/'' @ gl_project args @ ''/'' @
                                              gl_repository args @ ''/'' @ path))
                         (paginate (case gl_limit args of None \<Rightarrow> 100 | Some l \<Rightarrow> l)
                                   (case gl_offset args of None \<Rightarrow> 0 | Some off \<Rightarrow> off)
                                   (filter isMatch filePaths)) \<and>
               (filter isMatch filePaths = [] \<longrightarrow> files = []))"
    by (simp add: bitbucketGlobTool_success globFiles_def paginate_Nil)
  have empty: "\<forall>config response isMatch.
      getLatest = Inr config \<and>
      fetchFromBitbucketAPI (browseApiPath (gl_project args) (gl_repository args) [] 0) config =
        Inr response \<and>
      (\<not> ok response \<or> data response = None \<or>
       (\<exists>d. data response = Some d \<and> bc_values (br_children d) = [] \<and>
            bc_isLastPage (br_children d))) \<and>
      picomatch (gl_filePattern args) = Inr isMatch \<longrightarrow>
      bitbucketGlobTool (Suc fuel) getLatest fetchFromBitbucketAPI picomatch toFileURI args =
        Some [globProgress args, Done []]"
  proof (intro allI impI)
    fix config response isMatch
    assume root: "getLatest = Inr config \<and>
      fetchFromBitbucketAPI (browseApiPath (gl_project args) (gl_repository args) [] 0) config =
        Inr response \<and>
      (\<not> ok response \<or> data response = None \<or>
       (\<exists>d. data response = Some d \<and> bc_values (br_children d) = [] \<and>
            bc_isLastPage (br_children d))) \<and>
      picomatch (gl_filePattern args) = Inr isMatch"
    then have "fetchAllFiles (Suc fuel) fetchFromBitbucketAPI (gl_project args) (gl_repository args)
        config = Some (Inr [])"
      by (auto simp: fetchAllFiles_def)
    with root show "bitbucketGlobTool (Suc fuel) getLatest fetchFromBitbucketAPI picomatch
        toFileURI args = Some [globProgress args, Done []]"
      by (simp add: bitbucketGlobTool_success globFiles_def paginate_Nil)
  qed
  from failed skipped tool empty show ?thesis
    by (intro conjI)
qed

theorem glob_failed_page_skips_branch_witness:
  "exampleBrowse ''private'' 0 = Inr exampleForbidden \<and>
   fetchDirectory 1 exampleBrowse ''private'' 0 [''a.ts''] = Some (Inr [''a.ts'']) \<and>
   fetchDirectoryItems 1 exampleBrowse
     [exampleItem [''a.ts''] FILE, exampleItem [''private''] DIRECTORY,
      exampleItem [''dir''] DIRECTORY] [] =
   fetchDirectoryItems 1 exampleBrowse
     [exampleItem [''a.ts''] FILE, exampleItem [''dir''] DIRECTORY] [] \<and>
   bitbucketGlobTool 2 (Inr ()) exampleGlobFetch examplePicomatch exampleFileURI
     (exampleGlobArgs ''**/*.ts'' None None) =
     Some [globProgress (exampleGlobArgs ''**/*.ts'' None None),
           Done [''file:///SRC/web/a.ts'', ''file:///SRC/web/dir/c.ts'']] \<and>
   bitbucketGlobTool 2 (Inr ()) exampleGlobFetch examplePicomatch exampleFileURI
     (exampleGlobArgs ''**/*.go'' None None) =
     Some [globProgress (exampleGlobArgs ''**/*.go'' None None), Done []]"
proof -
  have refused: "exampleBrowse ''private'' 0 = Inr exampleForbidden"
    by (simp add: exampleBrowse_def)
  have not_ok: "\<not> ok exampleForbidden \<or> data exampleForbidden = None"
    by (simp add: exampleForbidden_def)
  have kind: "fi_type (exampleItem [''private''] DIRECTORY) = DIRECTORY"
    and name: "itemPath (exampleItem [''private''] DIRECTORY) = ''private''"
    by (simp_all add: exampleItem_def itemPath_def)
  note facts = glob_failed_page_skips_branch
    [where browse = exampleBrowse and fuel = 0 and getLatest = "Inr ()"
       and fetchFromBitbucketAPI = exampleGlobFetch and picomatch = examplePicomatch
       and toFileURI = exampleFileURI]
  from facts [where path = "''private''" and start = 0 and allFiles = "[''a.ts'']"]
    refused not_ok
  have branch: "fetchDirectory 1 exampleBrowse ''private'' 0 [''a.ts''] = Some (Inr [''a.ts''])"
    by simp
  from facts [where before = "[exampleItem [''a.ts''] FILE]"
      and after = "[exampleItem [''dir''] DIRECTORY]" and allFiles = "[]"]
    refused not_ok kind name
  have siblings: "fetchDirectoryItems 1 exampleBrowse
     [exampleItem [''a.ts''] FILE, exampleItem [''private''] DIRECTORY,
      exampleItem [''dir''] DIRECTORY] [] =
   fetchDirectoryItems 1 exampleBrowse
     [exampleItem [''a.ts''] FILE, exampleItem [''dir''] DIRECTORY] []"
    by (metis One_nat_def append_Cons append_Nil)
  have ts: "examplePicomatch ''**/*.ts'' = Inr (\<lambda>path. startsWith (rev path) ''st.'')"
    and go: "examplePicomatch ''**/*.go'' = Inr (\<lambda>path. startsWith (rev path) ''og.'')"
    by (simp_all add: examplePicomatch_def)
  from glob_failed_page_skips_branch
    [where fuel = 2 and getLatest = "Inr ()"
       and fetchFromBitbucketAPI = exampleGlobFetch and picomatch = examplePicomatch
       and toFileURI = exampleFileURI and args = "exampleGlobArgs ''**/*.ts'' None None"]
    exampleAllFiles ts
  have typescript: "bitbucketGlobTool 2 (Inr ()) exampleGlobFetch examplePicomatch exampleFileURI
     (exampleGlobArgs ''**/*.ts'' None None) =
     Some [globProgress (exampleGlobArgs ''**/*.ts'' None None),
           Done [''file:///SRC/web/a.ts'', ''file:///SRC/web/dir/c.ts'']]"
    by (simp add: exampleGlobArgs_def paginate_def jsSlice_def sliceIndex_def exampleFileURI_def)
  from glob_failed_page_skips_branch
    [where fuel = 2 and getLatest = "Inr ()"
       and fetchFromBitbucketAPI = exampleGlobFetch and picomatch = examplePicomatch
       and toFileURI = exampleFileURI and args = "exampleGlobArgs ''**/*.go'' None None"]
    exampleAllFiles go
  have golang: "bitbucketGlobTool 2 (Inr ()) exampleGlobFetch examplePicomatch exampleFileURI
     (exampleGlobArgs ''**/*.go'' None None) =
     Some [globProgress (exampleGlobArgs ''**/*.go'' None None), Done []]"
    by (simp add: exampleGlobArgs_def)
  from refused branch siblings typescript golang show ?thesis
    by (intro conjI)
qed

text \<open>
  C4. Two runs against the same server with the same arguments give the same events,
  however much fuel each was given. For \<open>k \<ge> 0\<close> and \<open>n > 0\<close>, when the run with
  offset 0 and limit \<open>k + n\<close> is done with the list \<open>whole\<close>, the run with offset
  \<open>k\<close> and limit \<open>n\<close> is done with the slice \<open>[k, k + n)\<close> of \<open>whole\<close>. With limit
  zero, the run with offset \<open>k\<close> is done with everything from index \<open>k\<close> on of what
  the run with offset 0 gives, which is the whole list of matches.
\<close>

theorem glob_pagination:
  assumes "0 \<le> k" and "0 < n"
  shows "(\<forall>fuel' run run'.
            bitbucketGlobTool fuel getLatest fetchFromBitbucketAPI picomatch toFileURI args = Some run \<and>
            bitbucketGlobTool fuel' getLatest fetchFromBitbucketAPI picomatch toFileURI args = Some run' \<longrightarrow>
            run = run') \<and>
         (\<forall>progress whole.
            bitbucketGlobTool fuel getLatest fetchFromBitbucketAPI picomatch toFileURI
              (args\<lparr>gl_limit := Some (k + n), gl_offset := Some 0\<rparr>) =
              Some [progress, Done whole] \<longrightarrow>
            bitbucketGlobTool fuel getLatest fetchFromBitbucketAPI picomatch toFileURI
              (args\<lparr>gl_limit := Some n, gl_offset := Some k\<rparr>) =
              Some [progress, Done (jsSlice whole k (k + n))] \<and>
            jsSlice whole k (k + n) = take (nat n) (drop (nat k) whole)) \<and>
         (\<forall>progress whole.
            bitbucketGlobTool fuel getLatest fetchFromBitbucketAPI picomatch toFileURI
              (args\<lparr>gl_limit := Some 0, gl_offset := Some 0\<rparr>) =
              Some [progress, Done whole] \<longrightarrow>
            bitbucketGlobTool fuel getLatest fetchFromBitbucketAPI picomatch toFileURI
              (args\<lparr>gl_limit := Some 0, gl_offset := Some k\<rparr>) =
              Some [progress, Done (drop (nat k) whole)] \<and>
            (\<exists>config filePaths isMatch.
               fetchAllFiles fuel fetchFromBitbucketAPI (gl_project args) (gl_repository args) config =
                 Some (Inr filePaths) \<and>
               picomatch (gl_filePattern args) = Inr isMatch \<and>
               whole = map (\<lambda>path. toFileURI (''/'' @ gl_project args @ ''/'' @
                                               gl_repository args @ ''/'' @ path))
                         (filter isMatch filePaths)))"
proof -
  have same: "\<forall>fuel' run run'.
      bitbucketGlobTool fuel getLatest fetchFromBitbucketAPI picomatch toFileURI args = Some run \<and>
      bitbucketGlobTool fuel' getLatest fetchFromBitbucketAPI picomatch toFileURI args = Some run' \<longrightarrow>
      run = run'"
  proof (intro allI impI)
    fix fuel' run run'
    assume runs:
      "bitbucketGlobTool fuel getLatest fetchFromBitbucketAPI picomatch toFileURI args = Some run \<and>
       bitbucketGlobTool fuel' getLatest fetchFromBitbucketAPI picomatch toFileURI args = Some run'"
    show "run = run'"
    proof (cases getLatest)
      case (Inl e)
      with runs show ?thesis
        by (auto simp: bitbucketGlobTool_def Let_def)
    next
      case (Inr config)
      with runs obtain r r' where
        r: "fetchAllFiles fuel fetchFromBitbucketAPI (gl_project args) (gl_repository args) config =
              Some r"
        and r': "fetchAllFiles fuel' fetchFromBitbucketAPI (gl_project args) (gl_repository args) config =
              Some r'"
        by (auto simp: bitbucketGlobTool_def Let_def split: option.splits)
      then have "r = r'"
        unfolding fetchAllFiles_def by (rule fetchDirectory_fuel_independent)
      with runs Inr r r' show ?thesis
        by (auto simp: bitbucketGlobTool_def Let_def)
    qed
  qed
  have window: "\<forall>progress whole.
      bitbucketGlobTool fuel getLatest fetchFromBitbucketAPI picomatch toFileURI
        (args\<lparr>gl_limit := Some (k + n), gl_offset := Some 0\<rparr>) =
        Some [progress, Done whole] \<longrightarrow>
      bitbucketGlobTool fuel getLatest fetchFromBitbucketAPI picomatch toFileURI
        (args\<lparr>gl_limit := Some n, gl_offset := Some k\<rparr>) =
        Some [progress, Done (jsSlice whole k (k + n))] \<and>
      jsSlice whole k (k + n) = take (nat n) (drop (nat k) whole)"
  proof (intro allI impI)
    fix progress whole
    assume "bitbucketGlobTool fuel getLatest fetchFromBitbucketAPI picomatch toFileURI
        (args\<lparr>gl_limit := Some (k + n), gl_offset := Some 0\<rparr>) =
        Some [progress, Done whole]"
    from bitbucketGlobTool_done [OF this] obtain config filePaths isMatch where
      run: "getLatest = Inr config"
        "fetchAllFiles fuel fetchFromBitbucketAPI (gl_project args) (gl_repository args) config =
           Some (Inr filePaths)"
        "picomatch (gl_filePattern args) = Inr isMatch"
      and progress: "progress = globProgress args"
      and whole: "whole = globFiles toFileURI isMatch (gl_project args) (gl_repository args)
                    (k + n) 0 filePaths"
      by (auto simp: globProgress_def)
    have slice: "jsSlice whole k (k + n) = take (nat n) (drop (nat k) whole)"
      using assms by (rule jsSlice_window)
    from run have "bitbucketGlobTool fuel getLatest fetchFromBitbucketAPI picomatch toFileURI
        (args\<lparr>gl_limit := Some n, gl_offset := Some k\<rparr>) =
        Some [globProgress args,
              Done (globFiles toFileURI isMatch (gl_project args) (gl_repository args) n k filePaths)]"
      by (simp add: bitbucketGlobTool_success globProgress_def)
    with progress whole slice globFiles_window [OF assms]
    show "bitbucketGlobTool fuel getLatest fetchFromBitbucketAPI picomatch toFileURI
        (args\<lparr>gl_limit := Some n, gl_offset := Some k\<rparr>) =
        Some [progress, Done (jsSlice whole k (k + n))] \<and>
      jsSlice whole k (k + n) = take (nat n) (drop (nat k) whole)"
      by simp
  qed
  have unlimited: "\<forall>progress whole.
      bitbucketGlobTool fuel getLatest fetchFromBitbucketAPI picomatch toFileURI
        (args\<lparr>gl_limit := Some 0, gl_offset := Some 0\<rparr>) =
        Some [progress, Done whole] \<longrightarrow>
      bitbucketGlobTool fuel getLatest fetchFromBitbucketAPI picomatch toFileURI
        (args\<lparr>gl_limit := Some 0, gl_offset := Some k\<rparr>) =
        Some [progress, Done (drop (nat k) whole)] \<and>
      (\<exists>config filePaths isMatch.
         fetchAllFiles fuel fetchFromBitbucketAPI (gl_project args) (gl_repository args) config =
           Some (Inr filePaths) \<and>
         picomatch (gl_filePattern args) = Inr isMatch \<and>
         whole = map (\<lambda>path. toFileURI (''/'' @ gl_project args @ ''/'' @
                                         gl_repository args @ ''/'' @ path))
                   (filter isMatch filePaths))"
  proof (intro allI impI)
    fix progress whole
    assume "bitbucketGlobTool fuel getLatest fetchFromBitbucketAPI picomatch toFileURI
        (args\<lparr>gl_limit := Some 0, gl_offset := Some 0\<rparr>) =
        Some [progress, Done whole]"
    from bitbucketGlobTool_done [OF this] obtain config filePaths isMatch where
      run: "getLatest = Inr config"
        "fetchAllFiles fuel fetchFromBitbucketAPI (gl_project args) (gl_repository args) config =
           Some (Inr filePaths)"
        "picomatch (gl_filePattern args) = Inr isMatch"
      and progress: "progress = globProgress args"
      and whole: "whole = globFiles toFileURI isMatch (gl_project args) (gl_repository args)
                    0 0 filePaths"
      by (auto simp: globProgress_def)
    from whole have all: "whole = map (\<lambda>path. toFileURI (''/'' @ gl_project args @ ''/'' @
                                         gl_repository args @ ''/'' @ path))
                   (filter isMatch filePaths)"
      by (simp add: globFiles_def paginate_def jsSliceFrom_def sliceIndex_def)
    from run have "bitbucketGlobTool fuel getLatest fetchFromBitbucketAPI picomatch toFileURI
        (args\<lparr>gl_limit := Some 0, gl_offset := Some k\<rparr>) =
        Some [globProgress args,
              Done (globFiles toFileURI isMatch (gl_project args) (gl_repository args) 0 k filePaths)]"
      by (simp add: bitbucketGlobTool_success globProgress_def)
    with progress whole globFiles_unlimited [OF assms(1)]
    have first: "bitbucketGlobTool fuel getLatest fetchFromBitbucketAPI picomatch toFileURI
        (args\<lparr>gl_limit := Some 0, gl_offset := Some k\<rparr>) =
        Some [progress, Done (drop (nat k) whole)]"
      by simp
    from run(2,3) all
    have second: "\<exists>config filePaths isMatch.
         fetchAllFiles fuel fetchFromBitbucketAPI (gl_project args) (gl_repository args) config =
           Some (Inr filePaths) \<and>
         picomatch (gl_filePattern args) = Inr isMatch \<and>
         whole = map (\<lambda>path. toFileURI (''/'' @ gl_project args @ ''/'' @
                                         gl_repository args @ ''/'' @ path))
                   (filter isMatch filePaths)"
      by blast
    from first second
    show "bitbucketGlobTool fuel getLatest fetchFromBitbucketAPI picomatch toFileURI
        (args\<lparr>gl_limit := Some 0, gl_offset := Some k\<rparr>) =
        Some [progress, Done (drop (nat k) whole)] \<and>
      (\<exists>config filePaths isMatch.
         fetchAllFiles fuel fetchFromBitbucketAPI (gl_project args) (gl_repository args) config =
           Some (Inr filePaths) \<and>
         picomatch (gl_filePattern args) = Inr isMatch \<and>
         whole = map (\<lambda>path. toFileURI (''/'' @ gl_project args @ ''/'' @
                                         gl_repository args @ ''/'' @ path))
                   (filter isMatch filePaths))"
      by (rule conjI)
  qed
  from same window unlimited show ?thesis
    by (intro conjI)
qed

theorem glob_pagination_witness:
  "bitbucketGlobTool 2 (Inr ()) exampleGlobFetch examplePicomatch exampleFileURI
     (exampleGlobArgs ''**/*s'' (Some 3) (Some 0)) =
     Some [globProgress (exampleGlobArgs ''**/*s'' None None),
           Done [''file:///SRC/web/a.ts'', ''file:///SRC/web/dir/c.ts'', ''file:///SRC/web/b.js'']] \<and>
   bitbucketGlobTool 2 (Inr ()) exampleGlobFetch examplePicomatch exampleFileURI
     (exampleGlobArgs ''**/*s'' (Some 2) (Some 1)) =
     Some [globProgress (exampleGlobArgs ''**/*s'' None None),
           Done [''file:///SRC/web/dir/c.ts'', ''file:///SRC/web/b.js'']]"
proof -
  have matcher: "examplePicomatch ''**/*s'' = Inr (\<lambda>path. startsWith (rev path) ''s'')"
    by (simp add: examplePicomatch_def)
  have whole: "bitbucketGlobTool 2 (Inr ()) exampleGlobFetch examplePicomatch exampleFileURI
     (exampleGlobArgs ''**/*s'' (Some 3) (Some 0)) =
     Some [globProgress (exampleGlobArgs ''**/*s'' None None),
           Done [''file:///SRC/web/a.ts'', ''file:///SRC/web/dir/c.ts'', ''file:///SRC/web/b.js'']]"
    using exampleAllFiles matcher
    by (simp add: bitbucketGlobTool_def Let_def exampleGlobArgs_def globFiles_def paginate_def
        jsSlice_def sliceIndex_def exampleFileURI_def globProgress_def)
  from glob_pagination
    [where k = 1 and n = 2 and fuel = 2 and getLatest = "Inr ()"
       and fetchFromBitbucketAPI = exampleGlobFetch and picomatch = examplePicomatch
       and toFileURI = exampleFileURI and args = "exampleGlobArgs ''**/*s'' None None"]
    whole
  have "bitbucketGlobTool 2 (Inr ()) exampleGlobFetch examplePicomatch exampleFileURI
     (exampleGlobArgs ''**/*s'' (Some 2) (Some 1)) =
     Some [globProgress (exampleGlobArgs ''**/*s'' None None),
           Done [''file:///SRC/web/dir/c.ts'', ''file:///SRC/web/b.js'']]"
    by (simp add: exampleGlobArgs_def)
  with whole show ?thesis
    by (rule conjI)
qed

end
